theory Spec2Isabelle
  imports Complex_Main "HOL-Library.AList"
begin

section \<open>Data model\<close>

text \<open>
  The controller of \<^verbatim>\<open>main.py\<close> is embedded function by function. Exceptions are
  values of \<open>exn\<close>, a function that can raise returns \<open>exn + 'a\<close> (\<open>Inl\<close> is the raised
  exception), and every function with an effect takes the \<open>world\<close> and returns the new one.
\<close>

datatype exn =
    ApiException int      \<comment> \<open>\<^verbatim>\<open>kubernetes.client.exceptions.ApiException\<close>, with its \<^verbatim>\<open>status\<close>\<close>
  | TransportError        \<comment> \<open>any other exception raised by the HTTP client\<close>
  | MetricNotFound
  | ValueError
  | UnboundLocalError
  | StopIteration
  | AssertionError
  | KeyError
  | TypeError
  | AttributeError
  | IndexError

text \<open>The dataclass \<^verbatim>\<open>HPA\<close>.\<close>

record HPA =
  name :: string
  namespace :: string
  metric_value_path :: string
  target_kind :: string
  target_name :: string
  scale_up_stabilization_window :: int
  scale_down_stabilization_window :: int

text \<open>
  The scale subresource (\<^verbatim>\<open>V1Scale\<close>) as the client returns it. \<^verbatim>\<open>spec.replicas\<close> is
  optional in the API (\<open>None\<close> in Python when the server leaves it out),
  \<^verbatim>\<open>status.replicas\<close> is always present.
\<close>

record v1_object_meta =
  meta_name :: string
  meta_namespace :: string
  resource_version :: string

record v1_scale_spec =
  spec_replicas :: "int option"

record v1_scale_status =
  status_replicas :: int
  status_selector :: string

record v1_scale =
  metadata :: v1_object_meta
  spec :: v1_scale_spec
  status :: v1_scale_status

text \<open>
  \<^verbatim>\<open>update_target\<close> binds \<^verbatim>\<open>read_scale\<close> and \<^verbatim>\<open>patch_scale\<close> to the methods of one of
  two workload kinds; \<open>scale_api\<close> names the pair that was bound.
\<close>

datatype scale_api = DeploymentScale | StatefulSetScale

text \<open>
  One entry of the \<^verbatim>\<open>MetricValueList\<close>: what matters of its \<^verbatim>\<open>value\<close> is what Python's
  \<^verbatim>\<open>int(...)\<close> makes of it. A text that reads as an integer gives the integer, any other
  text raises \<^verbatim>\<open>ValueError\<close>, and an entry without a value (\<^verbatim>\<open>None\<close>) raises \<^verbatim>\<open>TypeError\<close>.
\<close>

datatype metric_item = Value_int int | Value_other | Value_none

definition py_int :: "metric_item \<Rightarrow> exn + int" where
  "py_int it =
     (case it of
        Value_int v \<Rightarrow> Inr v
      | Value_other \<Rightarrow> Inl ValueError
      | Value_none \<Rightarrow> Inl TypeError)"

text \<open>A request to the cluster fails with an HTTP status or in some other way.\<close>

datatype api_failure = Status int | Transport

definition raised :: "api_failure \<Rightarrow> exn" where
  "raised f = (case f of Status st \<Rightarrow> ApiException st | Transport \<Rightarrow> TransportError)"

text \<open>Values of \<^verbatim>\<open>json.loads\<close>.\<close>

datatype pyfloat = Finite rat | Infinite | NaN

datatype json =
    JNull
  | JBool bool
  | JInt int
  | JFloat pyfloat
  | JStr string
  | JList "json list"
  | JDict "(string \<times> json) list"

text \<open>The HPA object as \<^verbatim>\<open>read_namespaced_horizontal_pod_autoscaler\<close> returns it.\<close>

record v1_hpa =
  hpa_namespace :: string                              \<comment> \<open>\<^verbatim>\<open>metadata.namespace\<close>\<close>
  hpa_annotations :: "(string \<times> string) list option"    \<comment> \<open>\<^verbatim>\<open>metadata.annotations\<close>\<close>
  scale_target_ref_kind :: string                      \<comment> \<open>\<^verbatim>\<open>spec.scale_target_ref.kind\<close>\<close>
  scale_target_ref_name :: string                      \<comment> \<open>\<^verbatim>\<open>spec.scale_target_ref.name\<close>\<close>

text \<open>
  Every request the controller sends is recorded with the answer it got. The list of
  calls is the controller's observable behaviour towards the cluster; a patch that was
  issued is a \<open>PatchScale\<close> entry, whether or not the server accepted it.
\<close>

datatype api_call =
    ReadHpa string string "api_failure + v1_hpa"
  | ReadScale scale_api string string "api_failure + v1_scale"
  | PatchScale scale_api string string v1_scale "api_failure option"
  | GetMetric string "api_failure + metric_item list"

datatype level = INFO | WARNING | ERROR

datatype message =
    Exiting exn
  | WillWatch string string
  | UpWindowIs int
  | DownWindowIs int
  | HpaForgotten string string
  | OnlySupportsOne
  | CouldNotGetMetric string int
  | ScaleNotFound string string
  | Scaled string string string int int
  | NoNeedToScale string string string int int
  | TargetNotFound string string string
  | WillNotUpdate string string string
  | WaitingForStabilization string string string int int
  | ScaleCanceled string string string

text \<open>
  The cluster and the library functions the controller calls are parameters. The answer
  to a request may depend on the number of requests made before it, so that any
  behaviour of the cluster over time can be written down. \<open>latency\<close> is the time the
  \<open>i\<close>-th request takes, in microseconds.
\<close>

record env =
  read_hpa_resp :: "nat \<Rightarrow> string \<Rightarrow> string \<Rightarrow> api_failure + v1_hpa"
  read_scale_resp :: "nat \<Rightarrow> scale_api \<Rightarrow> string \<Rightarrow> string \<Rightarrow> api_failure + v1_scale"
  patch_scale_resp :: "nat \<Rightarrow> scale_api \<Rightarrow> string \<Rightarrow> string \<Rightarrow> v1_scale \<Rightarrow> api_failure option"
  metric_resp :: "nat \<Rightarrow> string \<Rightarrow> api_failure + metric_item list"
  latency :: "nat \<Rightarrow> nat"
  json_loads :: "string \<Rightarrow> json option"     \<comment> \<open>\<open>None\<close>: \<^verbatim>\<open>JSONDecodeError\<close>, a \<^verbatim>\<open>ValueError\<close>\<close>
  str_of :: "json \<Rightarrow> string"                 \<comment> \<open>\<^verbatim>\<open>str(...)\<close> of a value that is not a string\<close>

text \<open>
  The state: the global dictionary \<^verbatim>\<open>HPAs\<close> in insertion order, the clock read by
  \<^verbatim>\<open>time()\<close> in microseconds, the requests sent and the records logged, newest first.
\<close>

record world =
  HPAs :: "(string \<times> HPA) list"
  clock :: int
  calls :: "api_call list"
  logged :: "(level \<times> message) list"

definition SYNC_INTERVAL :: int where
  "SYNC_INTERVAL = 10"

definition STABILIZATION_CHECK_INTERVAL :: int where
  "STABILIZATION_CHECK_INTERVAL = 1"

definition MICROSECONDS :: int where
  "MICROSECONDS = 1000000"

definition LOGGER :: "level \<Rightarrow> message \<Rightarrow> world \<Rightarrow> world" where
  "LOGGER lv m s = s\<lparr>logged := (lv, m) # logged s\<rparr>"

definition sleep :: "int \<Rightarrow> world \<Rightarrow> world" where
  "sleep secs s = s\<lparr>clock := clock s + secs * MICROSECONDS\<rparr>"

definition sent :: "env \<Rightarrow> api_call \<Rightarrow> world \<Rightarrow> world" where
  "sent e c s = s\<lparr>clock := clock s + int (latency e (length (calls s))), calls := c # calls s\<rparr>"

section \<open>Requests\<close>

definition read_scale :: "env \<Rightarrow> scale_api \<Rightarrow> string \<Rightarrow> string \<Rightarrow> world \<Rightarrow> (exn + v1_scale) \<times> world" where
  "read_scale e api ns nm s =
     (let resp = read_scale_resp e (length (calls s)) api ns nm;
          s1 = sent e (ReadScale api ns nm resp) s
      in case resp of Inl f \<Rightarrow> (Inl (raised f), s1) | Inr sc \<Rightarrow> (Inr sc, s1))"

definition patch_scale :: "env \<Rightarrow> scale_api \<Rightarrow> string \<Rightarrow> string \<Rightarrow> v1_scale \<Rightarrow> world \<Rightarrow> (exn + unit) \<times> world" where
  "patch_scale e api ns nm body s =
     (let resp = patch_scale_resp e (length (calls s)) api ns nm body;
          s1 = sent e (PatchScale api ns nm body resp) s
      in case resp of Some f \<Rightarrow> (Inl (raised f), s1) | None \<Rightarrow> (Inr (), s1))"

definition request_get :: "env \<Rightarrow> string \<Rightarrow> world \<Rightarrow> (exn + metric_item list) \<times> world" where
  "request_get e path s =
     (let resp = metric_resp e (length (calls s)) path;
          s1 = sent e (GetMetric path resp) s
      in case resp of Inl f \<Rightarrow> (Inl (raised f), s1) | Inr its \<Rightarrow> (Inr its, s1))"

definition read_hpa :: "env \<Rightarrow> string \<Rightarrow> string \<Rightarrow> world \<Rightarrow> (exn + v1_hpa) \<times> world" where
  "read_hpa e ns nm s =
     (let resp = read_hpa_resp e (length (calls s)) ns nm;
          s1 = sent e (ReadHpa ns nm resp) s
      in case resp of Inl f \<Rightarrow> (Inl (raised f), s1) | Inr h \<Rightarrow> (Inr h, s1))"

section \<open>The reconciliation side\<close>

text \<open>
  \<^verbatim>\<open>get_needed_replicas\<close>: \<^verbatim>\<open>min(int(....items[0].value), 1)\<close>; an \<^verbatim>\<open>ApiException\<close> with
  status 404, 503 or 403 is logged and becomes \<^verbatim>\<open>MetricNotFound\<close>, any other is raised
  again.
\<close>

definition get_needed_replicas :: "env \<Rightarrow> string \<Rightarrow> world \<Rightarrow> (exn + int) \<times> world" where
  "get_needed_replicas e path s =
     (case request_get e path s of
        (Inr its, s1) \<Rightarrow>
          (case its of
             [] \<Rightarrow> (Inl IndexError, s1)
           | it # _ \<Rightarrow>
               (case py_int it of
                  Inl x \<Rightarrow> (Inl x, s1)
                | Inr v \<Rightarrow> (Inr (min v 1), s1)))
      | (Inl (ApiException st), s1) \<Rightarrow>
          if st = 404 \<or> st = 503 \<or> st = 403
          then (Inl MetricNotFound, LOGGER ERROR (CouldNotGetMetric path st) s1)
          else (Inl (ApiException st), s1)
      | (Inl x, s1) \<Rightarrow> (Inl x, s1))"

text \<open>
  \<^verbatim>\<open>get_replicas\<close>: when \<^verbatim>\<open>read_scale\<close> raises a 404 the handler logs a warning and
  falls through to \<^verbatim>\<open>scale.status.replicas\<close>, where \<^verbatim>\<open>scale\<close> was never assigned:
  Python raises \<^verbatim>\<open>UnboundLocalError\<close>.
\<close>

definition get_replicas :: "env \<Rightarrow> HPA \<Rightarrow> scale_api \<Rightarrow> world \<Rightarrow> (exn + int \<times> int) \<times> world" where
  "get_replicas e hpa api s =
     (case read_scale e api (namespace hpa) (name hpa) s of
        (Inl (ApiException st), s1) \<Rightarrow>
          if st \<noteq> 404 then (Inl (ApiException st), s1)
          else (Inl UnboundLocalError, LOGGER WARNING (ScaleNotFound (namespace hpa) (name hpa)) s1)
      | (Inl x, s1) \<Rightarrow> (Inl x, s1)
      | (Inr scale, s1) \<Rightarrow>
          (let current_replicas = status_replicas (status scale) in
           case get_needed_replicas e (metric_value_path hpa) s1 of
             (Inl x, s2) \<Rightarrow> (Inl x, s2)
           | (Inr needed_replicas, s2) \<Rightarrow> (Inr (current_replicas, needed_replicas), s2)))"

definition scaling_up_is_needed :: "int \<Rightarrow> int \<Rightarrow> bool" where
  "scaling_up_is_needed current_replicas needed_replicas =
     (current_replicas < needed_replicas \<and> needed_replicas = 1)"

definition scaling_down_is_needed :: "int \<Rightarrow> int \<Rightarrow> bool" where
  "scaling_down_is_needed current_replicas needed_replicas =
     (current_replicas > needed_replicas \<and> needed_replicas = 0)"

text \<open>Python's \<^verbatim>\<open>bool\<close> of an integer.\<close>

definition py_bool_int :: "int \<Rightarrow> bool" where
  "py_bool_int n = (n \<noteq> 0)"

text \<open>
  The \<^verbatim>\<open>while time() < stabilization_end_time\<close> loop of \<^verbatim>\<open>scaling_is_needed\<close>. Each turn
  reads the replicas again, returns \<open>False\<close> when their truth values agree, and sleeps
  \<open>STABILIZATION_CHECK_INTERVAL\<close> seconds otherwise; the loop returns \<open>True\<close> when the clock
  has reached \<open>stabilization_end_time\<close>.
\<close>

function stabilization_wait :: "env \<Rightarrow> HPA \<Rightarrow> scale_api \<Rightarrow> int \<Rightarrow> world \<Rightarrow> (exn + bool) \<times> world" where
  "stabilization_wait e hpa api stabilization_end_time s =
     (if clock s < stabilization_end_time then
        (case get_replicas e hpa api s of
           (Inl x, s1) \<Rightarrow> (Inl x, s1)
         | (Inr (current_replicas, needed_replicas), s1) \<Rightarrow>
             if py_bool_int current_replicas = py_bool_int needed_replicas
             then (Inr False,
                   LOGGER INFO (ScaleCanceled (target_kind hpa) (namespace hpa) (name hpa)) s1)
             else stabilization_wait e hpa api stabilization_end_time
                    (sleep STABILIZATION_CHECK_INTERVAL s1))
      else (Inr True, s))"
  by pat_completeness auto
termination
proof (relation "measure (\<lambda>(e, hpa, api, t, s). nat (t - clock s))", goal_cases)
  case 1
  show ?case by simp
next
  case (2 e hpa api t s x1 s1 x2 cur needed)
  have "clock s \<le> clock (snd (get_replicas e hpa api s))"
    by (simp add: get_replicas_def read_scale_def get_needed_replicas_def request_get_def
        sent_def LOGGER_def Let_def split: sum.splits list.splits exn.splits)
  moreover from 2 have "snd (get_replicas e hpa api s) = s1"
    by (metis snd_conv)
  ultimately have "clock s \<le> clock s1"
    by simp
  with 2 show ?case
    by (simp add: sleep_def STABILIZATION_CHECK_INTERVAL_def MICROSECONDS_def)
qed

text \<open>
  \<^verbatim>\<open>scaling_is_needed\<close>. \<open>stabilized\<close> is its second half, from
  \<^verbatim>\<open>if stabilization_window != 0\<close> on, with the window the first half selected.
\<close>

definition stabilized :: "env \<Rightarrow> HPA \<Rightarrow> scale_api \<Rightarrow> int \<Rightarrow> int \<Rightarrow> int \<Rightarrow> world \<Rightarrow> (exn + bool) \<times> world" where
  "stabilized e hpa api stabilization_window current_replicas needed_replicas s =
     (if stabilization_window \<noteq> 0
      then stabilization_wait e hpa api (clock s + stabilization_window * MICROSECONDS)
             (LOGGER INFO (WaitingForStabilization (target_kind hpa) (namespace hpa) (name hpa)
                current_replicas needed_replicas) s)
      else (Inr True, s))"

definition scaling_is_needed :: "env \<Rightarrow> HPA \<Rightarrow> scale_api \<Rightarrow> world \<Rightarrow> (exn + bool) \<times> world" where
  "scaling_is_needed e hpa api s =
     (case get_replicas e hpa api s of
        (Inl x, s1) \<Rightarrow> (Inl x, s1)
      | (Inr (current_replicas, needed_replicas), s1) \<Rightarrow>
          if scaling_up_is_needed current_replicas needed_replicas
          then stabilized e hpa api (scale_up_stabilization_window hpa)
                 current_replicas needed_replicas s1
          else if scaling_down_is_needed current_replicas needed_replicas
          then stabilized e hpa api (scale_down_stabilization_window hpa)
                 current_replicas needed_replicas s1
          else (Inr False, s1))"

text \<open>
  \<^verbatim>\<open>update_target\<close>. The \<^verbatim>\<open>match\<close> on \<^verbatim>\<open>hpa.target_kind\<close> comes first, then the
  \<^verbatim>\<open>try\<close> block, then its two handlers: an \<^verbatim>\<open>ApiException\<close> with status 404 and
  \<^verbatim>\<open>MetricNotFound\<close> are logged and swallowed, everything else goes on to the caller.
\<close>

definition select_scale_api :: "string \<Rightarrow> exn + scale_api" where
  "select_scale_api kind =
     (if kind = ''Deployment'' then Inr DeploymentScale
      else if kind = ''StatefulSet'' then Inr StatefulSetScale
      else Inl ValueError)"

definition update_target_try :: "env \<Rightarrow> HPA \<Rightarrow> scale_api \<Rightarrow> world \<Rightarrow> (exn + unit) \<times> world" where
  "update_target_try e hpa api s =
     (case scaling_is_needed e hpa api s of
        (Inl x, s1) \<Rightarrow> (Inl x, s1)
      | (Inr True, s1) \<Rightarrow>
          (case read_scale e api (namespace hpa) (name hpa) s1 of
             (Inl x, s2) \<Rightarrow> (Inl x, s2)
           | (Inr scale, s2) \<Rightarrow>
               (case get_replicas e hpa api s2 of
                  (Inl x, s3) \<Rightarrow> (Inl x, s3)
                | (Inr (current_replicas, needed_replicas), s3) \<Rightarrow>
                    (case patch_scale e api (namespace hpa) (name hpa)
                            (scale\<lparr>spec := (spec scale)\<lparr>spec_replicas := Some needed_replicas\<rparr>\<rparr>) s3 of
                       (Inl x, s4) \<Rightarrow> (Inl x, s4)
                     | (Inr _, s4) \<Rightarrow>
                         (Inr (), LOGGER INFO (Scaled (target_kind hpa) (namespace hpa) (name hpa)
                                    current_replicas needed_replicas) s4))))
      | (Inr False, s1) \<Rightarrow>
          (case get_replicas e hpa api s1 of
             (Inl x, s2) \<Rightarrow> (Inl x, s2)
           | (Inr (current_replicas, needed_replicas), s2) \<Rightarrow>
               (Inr (), LOGGER INFO (NoNeedToScale (target_kind hpa) (namespace hpa) (name hpa)
                          current_replicas needed_replicas) s2)))"

definition update_target_except :: "HPA \<Rightarrow> (exn + unit) \<times> world \<Rightarrow> (exn + unit) \<times> world" where
  "update_target_except hpa r =
     (case r of
        (Inl (ApiException st), s1) \<Rightarrow>
          if st \<noteq> 404 then (Inl (ApiException st), s1)
          else (Inr (), LOGGER WARNING (TargetNotFound (target_kind hpa) (namespace hpa) (name hpa)) s1)
      | (Inl MetricNotFound, s1) \<Rightarrow>
          (Inr (), LOGGER ERROR (WillNotUpdate (target_kind hpa) (namespace hpa) (target_name hpa)) s1)
      | (Inl x, s1) \<Rightarrow> (Inl x, s1)
      | (Inr u, s1) \<Rightarrow> (Inr u, s1))"

definition update_target :: "env \<Rightarrow> HPA \<Rightarrow> world \<Rightarrow> (exn + unit) \<times> world" where
  "update_target e hpa s =
     (case select_scale_api (target_kind hpa) of
        Inl x \<Rightarrow> (Inl x, s)
      | Inr api \<Rightarrow> update_target_except hpa (update_target_try e hpa api s))"

text \<open>
  \<^verbatim>\<open>_watch\<close>, the thread started by \<^verbatim>\<open>watch_metrics\<close>. \<open>update_targets\<close> is the
  \<^verbatim>\<open>for\<close> loop over the snapshot \<^verbatim>\<open>list(HPAs.values())\<close>. The \<^verbatim>\<open>while True\<close> loop has
  no exit of its own: \<open>watch_metrics\<close> runs a given number of its turns and says whether
  the process is still running or was ended by \<^verbatim>\<open>os._exit(1)\<close>.
\<close>

definition snapshot :: "world \<Rightarrow> HPA list" where
  "snapshot s = map snd (HPAs s)"

fun update_targets :: "env \<Rightarrow> HPA list \<Rightarrow> world \<Rightarrow> (exn + unit) \<times> world" where
  "update_targets e [] s = (Inr (), s)"
| "update_targets e (hpa # hpas) s =
     (case update_target e hpa s of
        (Inl x, s1) \<Rightarrow> (Inl x, s1)
      | (Inr _, s1) \<Rightarrow> update_targets e hpas s1)"

datatype process = Running | Exited int

fun watch_metrics :: "env \<Rightarrow> nat \<Rightarrow> world \<Rightarrow> process \<times> world" where
  "watch_metrics e 0 s = (Running, s)"
| "watch_metrics e (Suc turns) s =
     (case update_targets e (snapshot s) s of
        (Inl exc, s1) \<Rightarrow> (Exited 1, LOGGER ERROR (Exiting exc) s1)
      | (Inr _, s1) \<Rightarrow> watch_metrics e turns (sleep SYNC_INTERVAL s1))"

section \<open>The discovery side\<close>

text \<open>
  What Python does with a value of \<^verbatim>\<open>json.loads\<close> in \<^verbatim>\<open>build_metric_value_path\<close>:
  \<^verbatim>\<open>x["key"]\<close>, \<^verbatim>\<open>x.get("key")\<close>, iteration, truth value, comparison with a string,
  and formatting inside an f-string.
\<close>

definition py_getitem :: "json \<Rightarrow> string \<Rightarrow> exn + json" where
  "py_getitem x k =
     (case x of
        JDict d \<Rightarrow> (case map_of d k of None \<Rightarrow> Inl KeyError | Some v \<Rightarrow> Inr v)
      | _ \<Rightarrow> Inl TypeError)"

definition py_get :: "json \<Rightarrow> string \<Rightarrow> exn + json" where
  "py_get x k =
     (case x of
        JDict d \<Rightarrow> (case map_of d k of None \<Rightarrow> Inr JNull | Some v \<Rightarrow> Inr v)
      | _ \<Rightarrow> Inl AttributeError)"

definition py_iter :: "json \<Rightarrow> exn + json list" where
  "py_iter x =
     (case x of
        JList xs \<Rightarrow> Inr xs
      | JDict d \<Rightarrow> Inr (map (\<lambda>kv. JStr (fst kv)) d)
      | JStr cs \<Rightarrow> Inr (map (\<lambda>c. JStr [c]) cs)
      | _ \<Rightarrow> Inl TypeError)"

definition py_bool :: "json \<Rightarrow> bool" where
  "py_bool x =
     (case x of
        JNull \<Rightarrow> False
      | JBool b \<Rightarrow> b
      | JInt n \<Rightarrow> n \<noteq> 0
      | JFloat f \<Rightarrow> f \<noteq> Finite 0
      | JStr cs \<Rightarrow> cs \<noteq> []
      | JList xs \<Rightarrow> xs \<noteq> []
      | JDict d \<Rightarrow> d \<noteq> [])"

definition py_eq_str :: "json \<Rightarrow> string \<Rightarrow> bool" where
  "py_eq_str x cs = (x = JStr cs)"

definition py_format :: "env \<Rightarrow> json \<Rightarrow> string" where
  "py_format e x = (case x of JStr cs \<Rightarrow> cs | _ \<Rightarrow> str_of e x)"

text \<open>
  \<^verbatim>\<open>next(m["object"] for m in metrics if m["type"] == "Object")\<close>, on the elements of
  \<^verbatim>\<open>metrics\<close>: the first element whose type is \<^verbatim>\<open>"Object"\<close> decides.
\<close>

fun next_object :: "json list \<Rightarrow> exn + json" where
  "next_object [] = Inl StopIteration"
| "next_object (m # ms) =
     (case py_getitem m ''type'' of
        Inl x \<Rightarrow> Inl x
      | Inr t \<Rightarrow> if py_eq_str t ''Object'' then py_getitem m ''object'' else next_object ms)"

text \<open>The body of the \<^verbatim>\<open>try\<close> block: it gives \<^verbatim>\<open>custom_metric\<close> and \<^verbatim>\<open>target\<close>.\<close>

definition custom_metric_and_target :: "json \<Rightarrow> exn + json \<times> json" where
  "custom_metric_and_target metrics =
     (case py_iter metrics of
        Inl x \<Rightarrow> Inl x
      | Inr ms \<Rightarrow>
     (case next_object ms of
        Inl x \<Rightarrow> Inl x
      | Inr custom_metric \<Rightarrow>
     (case py_get custom_metric ''selector'' of
        Inl x \<Rightarrow> Inl x
      | Inr selector \<Rightarrow>
          if py_bool selector then Inl AssertionError
          else
     (case py_getitem custom_metric ''target'' of
        Inl x \<Rightarrow> Inl x
      | Inr target \<Rightarrow>
     (case py_getitem target ''kind'' of
        Inl x \<Rightarrow> Inl x
      | Inr k \<Rightarrow>
          if py_eq_str k ''Service'' then Inr (custom_metric, target)
          else Inl AssertionError)))))"

definition METRICS_ANNOTATION :: string where
  "METRICS_ANNOTATION = ''autoscaling.alpha.kubernetes.io/metrics''"

definition build_metric_value_path :: "env \<Rightarrow> v1_hpa \<Rightarrow> world \<Rightarrow> (exn + string) \<times> world" where
  "build_metric_value_path e hpa s =
     (case hpa_annotations hpa of
        None \<Rightarrow> (Inl TypeError, s)
      | Some annotations \<Rightarrow>
     (case map_of annotations METRICS_ANNOTATION of
        None \<Rightarrow> (Inl KeyError, s)
      | Some text \<Rightarrow>
     (case json_loads e text of
        None \<Rightarrow> (Inl ValueError, s)
      | Some metrics \<Rightarrow>
     (case custom_metric_and_target metrics of
        Inl x \<Rightarrow>
          if x = StopIteration \<or> x = AssertionError
          then (Inl x, LOGGER ERROR OnlySupportsOne s)
          else (Inl x, s)
      | Inr (custom_metric, target) \<Rightarrow>
     (case py_getitem target ''name'' of
        Inl x \<Rightarrow> (Inl x, s)
      | Inr service_name \<Rightarrow>
     (case py_getitem custom_metric ''metricName'' of
        Inl x \<Rightarrow> (Inl x, s)
      | Inr metric_name \<Rightarrow>
          (Inr (''apis/custom.metrics.k8s.io/v1beta1/namespaces/'' @ hpa_namespace hpa
                @ ''/services/'' @ py_format e service_name @ ''/'' @ py_format e metric_name),
           s)))))))"

text \<open>
  \<^verbatim>\<open>update_hpa\<close>. The arguments of \<^verbatim>\<open>HPA(...)\<close> are evaluated before the assignment
  to \<^verbatim>\<open>HPAs[namespaced_name]\<close>, so an exception of \<^verbatim>\<open>build_metric_value_path\<close> leaves the
  dictionary as it was. Only an \<^verbatim>\<open>ApiException\<close> is handled: with status 404 the entry
  is popped. A Python dictionary keeps a replaced key at its place and puts a new key
  last, which is what \<open>AList.update\<close> does.
\<close>

definition update_hpa :: "env \<Rightarrow> string \<Rightarrow> string \<Rightarrow> int \<Rightarrow> int \<Rightarrow> world \<Rightarrow> (exn + unit) \<times> world" where
  "update_hpa e hpa_ns hpa_nm up_window down_window s =
     (let namespaced_name = hpa_ns @ ''/'' @ hpa_nm in
      case read_hpa e hpa_ns hpa_nm s of
        (Inl (ApiException st), s1) \<Rightarrow>
          if st \<noteq> 404 then (Inl (ApiException st), s1)
          else (Inr (), (LOGGER INFO (HpaForgotten hpa_ns hpa_nm) s1)
                          \<lparr>HPAs := AList.delete namespaced_name (HPAs s1)\<rparr>)
      | (Inl x, s1) \<Rightarrow> (Inl x, s1)
      | (Inr hpa, s1) \<Rightarrow>
          (case build_metric_value_path e hpa s1 of
             (Inl (ApiException st), s2) \<Rightarrow>
               if st \<noteq> 404 then (Inl (ApiException st), s2)
               else (Inr (), (LOGGER INFO (HpaForgotten hpa_ns hpa_nm) s2)
                               \<lparr>HPAs := AList.delete namespaced_name (HPAs s2)\<rparr>)
           | (Inl x, s2) \<Rightarrow> (Inl x, s2)
           | (Inr path, s2) \<Rightarrow>
               (Inr (), s2\<lparr>HPAs := AList.update namespaced_name
                         \<lparr>name = hpa_nm, namespace = hpa_ns, metric_value_path = path,
                          target_kind = scale_target_ref_kind hpa,
                          target_name = scale_target_ref_name hpa,
                          scale_up_stabilization_window = up_window,
                          scale_down_stabilization_window = down_window\<rparr> (HPAs s2)\<rparr>)))"

text \<open>
  \<^verbatim>\<open>watch_hpa\<close>. An event of the stream carries its type and the metadata of its
  object; \<^verbatim>\<open>update_hpa\<close> is given the metadata only. A stream delivers its events and
  then ends, by closing or by raising. \<open>watch_events\<close> is the \<^verbatim>\<open>for\<close> loop over one
  stream, \<open>watch_streams\<close> the \<^verbatim>\<open>while True\<close> loop over the streams that are opened one
  after the other: it returns \<open>Inr ()\<close> when the given streams are used up and the
  watcher is about to open the next one, and \<open>Inl\<close> the exception that left
  \<^verbatim>\<open>watch_hpa\<close> and ended the main thread.
\<close>

datatype event_type = ADDED | MODIFIED | DELETED

record event =
  event_type :: event_type
  object_namespace :: string
  object_name :: string

datatype stream_end = Closed | Raises api_failure

record args =
  hpa_namespace_arg :: string
  hpa_label_selector :: string
  up_stabilization_window :: int
  down_stabilization_window :: int

fun watch_events :: "env \<Rightarrow> args \<Rightarrow> event list \<Rightarrow> world \<Rightarrow> (exn + unit) \<times> world" where
  "watch_events e a [] s = (Inr (), s)"
| "watch_events e a (ev # evs) s =
     (case update_hpa e (object_namespace ev) (object_name ev)
             (up_stabilization_window a) (down_stabilization_window a) s of
        (Inl x, s1) \<Rightarrow> (Inl x, s1)
      | (Inr _, s1) \<Rightarrow> watch_events e a evs s1)"

definition watch_stream :: "env \<Rightarrow> args \<Rightarrow> event list \<times> stream_end \<Rightarrow> world \<Rightarrow> (exn + unit) \<times> world" where
  "watch_stream e a st s =
     (case watch_events e a (fst st) s of
        (Inl x, s1) \<Rightarrow> (Inl x, s1)
      | (Inr _, s1) \<Rightarrow>
          (case snd st of Closed \<Rightarrow> (Inr (), s1) | Raises f \<Rightarrow> (Inl (raised f), s1)))"

fun watch_streams :: "env \<Rightarrow> args \<Rightarrow> (event list \<times> stream_end) list \<Rightarrow> world \<Rightarrow> (exn + unit) \<times> world" where
  "watch_streams e a [] s = (Inr (), s)"
| "watch_streams e a (st # sts) s =
     (case watch_stream e a st s of
        (Inl (ApiException code), s1) \<Rightarrow>
          if code \<noteq> 410 then (Inl (ApiException code), s1)
          else watch_streams e a sts s1
      | (Inl x, s1) \<Rightarrow> (Inl x, s1)
      | (Inr _, s1) \<Rightarrow> watch_streams e a sts s1)"

definition watch_hpa :: "env \<Rightarrow> args \<Rightarrow> (event list \<times> stream_end) list \<Rightarrow> world \<Rightarrow> (exn + unit) \<times> world" where
  "watch_hpa e a sts s =
     watch_streams e a sts
       (LOGGER INFO (DownWindowIs (down_stabilization_window a))
         (LOGGER INFO (UpWindowIs (up_stabilization_window a))
           (LOGGER INFO (WillWatch (hpa_label_selector a) (hpa_namespace_arg a)) s)))"

section \<open>Notions used in the statements\<close>

text \<open>
  Which requests are patches, which are metric requests that found the metric
  unavailable, and which patches ask for at most one replica. \<open>wait_reaches\<close> relates the
  state in which the polling loop of \<^verbatim>\<open>scaling_is_needed\<close> starts to the states in which
  one of its turns starts: each turn before read counts whose truth values differ, and
  slept. \<open>reads_only\<close> is what the reading functions have in common: they leave \<^verbatim>\<open>HPAs\<close>
  alone, add requests that are not patches, and end in \<^verbatim>\<open>MetricNotFound\<close>, with its
  error logged, when one of these requests found the metric unavailable.
\<close>

fun is_patch :: "api_call \<Rightarrow> bool" where
  "is_patch (PatchScale api ns nm body resp) = True"
| "is_patch _ = False"

fun metric_unavailable :: "api_call \<Rightarrow> bool" where
  "metric_unavailable (GetMetric path (Inl (Status st))) = (st = 404 \<or> st = 503 \<or> st = 403)"
| "metric_unavailable _ = False"

fun patch_at_most_one :: "api_call \<Rightarrow> bool" where
  "patch_at_most_one (PatchScale api ns nm body resp) =
     (case spec_replicas (spec body) of None \<Rightarrow> False | Some n \<Rightarrow> n \<le> 1)"
| "patch_at_most_one _ = True"

inductive wait_reaches :: "env \<Rightarrow> HPA \<Rightarrow> scale_api \<Rightarrow> int \<Rightarrow> world \<Rightarrow> world \<Rightarrow> bool"
  for e hpa api t where
    start: "wait_reaches e hpa api t s s"
  | poll: "wait_reaches e hpa api t s s1 \<Longrightarrow> clock s1 < t \<Longrightarrow>
           get_replicas e hpa api s1 = (Inr (cur, needed), s2) \<Longrightarrow>
           py_bool_int cur \<noteq> py_bool_int needed \<Longrightarrow>
           wait_reaches e hpa api t s (sleep STABILIZATION_CHECK_INTERVAL s2)"

code_pred wait_reaches .

definition patches :: "world \<Rightarrow> api_call list" where
  "patches s = filter is_patch (calls s)"

definition reads_only :: "world \<Rightarrow> (exn + 'a) \<times> world \<Rightarrow> bool" where
  "reads_only s r =
     (HPAs (snd r) = HPAs s
      \<and> (\<exists>new. calls (snd r) = new @ calls s
            \<and> (\<forall>c\<in>set new. \<not> is_patch c)
            \<and> ((\<exists>c\<in>set new. metric_unavailable c) \<longrightarrow> fst r = Inl MetricNotFound))
      \<and> (fst r = Inl MetricNotFound \<longrightarrow>
            (\<exists>path st rest. logged (snd r) = (ERROR, CouldNotGetMetric path st) # rest)))"

text \<open>
  \<open>registry_keyed\<close>: every entry of \<^verbatim>\<open>HPAs\<close> is filed under the namespaced name of its
  HPA. \<open>annotation_resolves\<close>: \<^verbatim>\<open>build_metric_value_path\<close> returns a path for the HPA (the
  state it is given only receives the log). \<open>readmits\<close>: the request is a read of the HPA
  with the given namespaced name that found it, with an annotation that resolves.
\<close>

definition registry_keyed :: "(string \<times> HPA) list \<Rightarrow> bool" where
  "registry_keyed hs = list_all (\<lambda>kh. fst kh = namespace (snd kh) @ ''/'' @ name (snd kh)) hs"

definition annotation_resolves :: "env \<Rightarrow> v1_hpa \<Rightarrow> bool" where
  "annotation_resolves e hpa =
     (case fst (build_metric_value_path e hpa \<lparr>HPAs = [], clock = 0, calls = [], logged = []\<rparr>) of
        Inl x \<Rightarrow> False
      | Inr path \<Rightarrow> True)"

fun readmits :: "env \<Rightarrow> string \<Rightarrow> api_call \<Rightarrow> bool" where
  "readmits e k (ReadHpa ns nm (Inr hpa)) = (ns @ ''/'' @ nm = k \<and> annotation_resolves e hpa)"
| "readmits e k _ = False"

section \<open>Example inputs\<close>

text \<open>
  Concrete clusters and objects at which the theorems below are applied. \<open>cluster\<close>
  answers the scale reads and the metric requests as given, by the number of the
  request, accepts every patch and knows no HPA.
\<close>

definition world0 :: world where
  "world0 = \<lparr>HPAs = [], clock = 0, calls = [], logged = []\<rparr>"

definition web_scale :: "string \<Rightarrow> int option \<Rightarrow> int \<Rightarrow> v1_scale" where
  "web_scale rv wanted running =
     \<lparr>metadata = \<lparr>meta_name = ''web'', meta_namespace = ''default'', resource_version = rv\<rparr>,
      spec = \<lparr>spec_replicas = wanted\<rparr>,
      status = \<lparr>status_replicas = running, status_selector = ''app=web''\<rparr>\<rparr>"

definition web_path :: string where
  "web_path = ''apis/custom.metrics.k8s.io/v1beta1/namespaces/default/services/web/requests''"

definition web_hpa :: "int \<Rightarrow> int \<Rightarrow> HPA" where
  "web_hpa up_window down_window =
     \<lparr>name = ''web'', namespace = ''default'', metric_value_path = web_path,
      target_kind = ''Deployment'', target_name = ''web'',
      scale_up_stabilization_window = up_window,
      scale_down_stabilization_window = down_window\<rparr>"

definition cluster :: "(nat \<Rightarrow> api_failure + v1_scale) \<Rightarrow> (nat \<Rightarrow> api_failure + metric_item list) \<Rightarrow> env" where
  "cluster scales metrics =
     \<lparr>read_hpa_resp = (\<lambda>i ns nm. Inl (Status 404)),
      read_scale_resp = (\<lambda>i api ns nm. scales i),
      patch_scale_resp = (\<lambda>i api ns nm body. None),
      metric_resp = (\<lambda>i path. metrics i),
      latency = (\<lambda>i. 0),
      json_loads = (\<lambda>text. None),
      str_of = (\<lambda>x. [])\<rparr>"

text \<open>
  For the discovery side: annotation texts with the values \<^verbatim>\<open>json.loads\<close> gives for them,
  an HPA object that carries a text as its metrics annotation, and \<open>api_server\<close>, which
  answers the read of an HPA as given, by the number of the request and the name.
\<close>

definition no_metric_text :: string where
  \<open>no_metric_text = ''[]''\<close>

definition one_metric_text :: string where
  \<open>one_metric_text = ''[{"type": "Object", "object": {"target": {"kind": "Service", "name": "web"}, "metricName": "requests"}}]''\<close>

definition two_metrics_text :: string where
  \<open>two_metrics_text = ''[{"type": "Object", "object": {"target": {"kind": "Service", "name": "web"}, "metricName": "requests"}}, {"type": "Object", "object": {"target": {"kind": "Service", "name": "api"}, "metricName": "errors"}}]''\<close>

definition selector_metric_text :: string where
  \<open>selector_metric_text = ''[{"type": "Object", "object": {"target": {"kind": "Service", "name": "web"}, "metricName": "requests", "selector": {"matchLabels": {"app": "web"}}}}]''\<close>

definition pod_metric_text :: string where
  \<open>pod_metric_text = ''[{"type": "Object", "object": {"target": {"kind": "Pod", "name": "web-0"}, "metricName": "requests"}}]''\<close>

definition metric_entry :: "string \<Rightarrow> string \<Rightarrow> string \<Rightarrow> (string \<times> json) list \<Rightarrow> json" where
  "metric_entry kind service metric extra =
     JDict [(''type'', JStr ''Object''),
            (''object'', JDict ([(''target'', JDict [(''kind'', JStr kind), (''name'', JStr service)]),
                                (''metricName'', JStr metric)] @ extra))]"

definition example_loads :: "string \<Rightarrow> json option" where
  "example_loads text =
     (if text = no_metric_text then Some (JList [])
      else if text = one_metric_text
        then Some (JList [metric_entry ''Service'' ''web'' ''requests'' []])
      else if text = two_metrics_text
        then Some (JList [metric_entry ''Service'' ''web'' ''requests'' [],
                          metric_entry ''Service'' ''api'' ''errors'' []])
      else if text = selector_metric_text
        then Some (JList [metric_entry ''Service'' ''web'' ''requests''
                            [(''selector'', JDict [(''matchLabels'', JDict [(''app'', JStr ''web'')])])]])
      else if text = pod_metric_text
        then Some (JList [metric_entry ''Pod'' ''web-0'' ''requests'' []])
      else None)"

definition annotated :: "string \<Rightarrow> v1_hpa" where
  "annotated text =
     \<lparr>hpa_namespace = ''default'',
      hpa_annotations = Some [(METRICS_ANNOTATION, text)],
      scale_target_ref_kind = ''Deployment'',
      scale_target_ref_name = ''web''\<rparr>"

definition api_server :: "(nat \<Rightarrow> string \<Rightarrow> api_failure + v1_hpa) \<Rightarrow> env" where
  "api_server hpas =
     \<lparr>read_hpa_resp = (\<lambda>i ns nm. hpas i nm),
      read_scale_resp = (\<lambda>i api ns nm. Inl (Status 404)),
      patch_scale_resp = (\<lambda>i api ns nm body. None),
      metric_resp = (\<lambda>i path. Inl (Status 404)),
      latency = (\<lambda>i. 0),
      json_loads = example_loads,
      str_of = (\<lambda>x. [])\<rparr>"

definition watch_args :: args where
  "watch_args = \<lparr>hpa_namespace_arg = ''default'', hpa_label_selector = [],
                 up_stabilization_window = 0, down_stabilization_window = 0\<rparr>"

definition event_of :: "event_type \<Rightarrow> string \<Rightarrow> event" where
  "event_of ty nm = \<lparr>event_type = ty, object_namespace = ''default'', object_name = nm\<rparr>"

section \<open>Lemmas about the reconciliation side\<close>

lemma reads_only_read_scale: "reads_only s (read_scale e api ns nm s)"
  by (auto simp: reads_only_def read_scale_def sent_def Let_def raised_def split: sum.splits api_failure.splits)

lemma reads_only_get_needed_replicas: "reads_only s (get_needed_replicas e path s)"
  by (auto simp: reads_only_def get_needed_replicas_def request_get_def sent_def Let_def raised_def LOGGER_def py_int_def
       split: sum.splits api_failure.splits list.splits metric_item.splits)

lemma reads_only_trans:
  assumes "reads_only s (Inr a, s1)" "reads_only s1 r"
  shows "reads_only s r"
  using assms by (auto simp: reads_only_def)

lemma reads_only_LOGGER: "reads_only s (r, s1) \<Longrightarrow> r \<noteq> Inl MetricNotFound \<Longrightarrow> reads_only s (r, LOGGER lv m s1)"
  by (auto simp: reads_only_def LOGGER_def)

lemma reads_only_get_replicas: "reads_only s (get_replicas e hpa api s)"
proof -
  let ?r = "read_scale e api (namespace hpa) (name hpa) s"
  have a: "reads_only s ?r" by (rule reads_only_read_scale)
  show ?thesis
  proof (cases ?r)
    case (Pair r s1)
    show ?thesis
    proof (cases r)
      case (Inl x)
      with Pair a show ?thesis
        by (auto simp: get_replicas_def read_scale_def sent_def Let_def raised_def LOGGER_def reads_only_def split: exn.splits sum.splits api_failure.splits)
    next
      case (Inr sc)
      have b: "reads_only s1 (get_needed_replicas e (metric_value_path hpa) s1)"
        by (rule reads_only_get_needed_replicas)
      from Pair Inr a have "reads_only s (Inr sc, s1)" by simp
      from reads_only_trans [OF this b] Pair Inr show ?thesis
        by (auto simp: get_replicas_def reads_only_def split: prod.splits sum.splits)
    qed
  qed
qed

declare stabilization_wait.simps [simp del]

lemma reads_only_Inl:
  "reads_only s (Inl x :: exn + 'a, s1) \<Longrightarrow> reads_only s (Inl x :: exn + 'b, s1)"
  by (simp add: reads_only_def)

lemma reads_only_refl: "r \<noteq> Inl MetricNotFound \<Longrightarrow> reads_only s (r, s)"
  by (simp add: reads_only_def)

lemma reads_only_sleep: "reads_only s (r, s1) \<Longrightarrow> reads_only s (r, sleep d s1)"
  by (auto simp: reads_only_def sleep_def)

lemma reads_only_stabilization_wait: "reads_only s (stabilization_wait e hpa api t s)"
proof (induction e hpa api t s rule: stabilization_wait.induct)
  case (1 e hpa api t s)
  show ?case
  proof (cases "clock s < t")
    case False
    then show ?thesis
      by (subst stabilization_wait.simps) (simp add: reads_only_refl)
  next
    case True
    obtain r s1 where g: "get_replicas e hpa api s = (r, s1)"
      by (cases "get_replicas e hpa api s")
    have ro: "reads_only s (r, s1)"
      using reads_only_get_replicas [of s e hpa api] g by simp
    show ?thesis
    proof (cases r)
      case (Inl x)
      with True g reads_only_Inl [of s x s1] ro show ?thesis
        by (subst stabilization_wait.simps) simp
    next
      case (Inr p)
      obtain cur needed where p: "p = (cur, needed)"
        by (cases p)
      show ?thesis
      proof (cases "py_bool_int cur = py_bool_int needed")
        case same: True
        have "reads_only s (Inr False :: exn + bool, s1)"
          using ro Inr by (auto simp: reads_only_def)
        then show ?thesis
          using True g Inr p same
          by (subst stabilization_wait.simps) (simp add: reads_only_LOGGER)
      next
        case differ: False
        let ?s2 = "sleep STABILIZATION_CHECK_INTERVAL s1"
        have ih: "reads_only ?s2 (stabilization_wait e hpa api t ?s2)"
          by (rule "1.IH" [OF True g [symmetric] Inr p [symmetric] differ])
        have "reads_only s (Inr p, ?s2)"
          using ro Inr by (simp add: reads_only_sleep)
        from reads_only_trans [OF this ih] show ?thesis
          using True g Inr p differ by (subst stabilization_wait.simps) simp
      qed
    qed
  qed
qed

lemma reads_only_stabilized: "reads_only s (stabilized e hpa api w cur needed s)"
proof (cases "w = 0")
  case True
  then show ?thesis
    by (simp add: stabilized_def reads_only_refl)
next
  case False
  let ?s1 = "LOGGER INFO (WaitingForStabilization (target_kind hpa) (namespace hpa) (name hpa) cur needed) s"
  have a: "reads_only s (Inr (), ?s1)"
    by (simp add: reads_only_refl reads_only_LOGGER)
  have "reads_only ?s1 (stabilization_wait e hpa api (clock s + w * MICROSECONDS) ?s1)"
    by (rule reads_only_stabilization_wait)
  from reads_only_trans [OF a this] False show ?thesis
    by (simp add: stabilized_def LOGGER_def)
qed

lemma reads_only_scaling_is_needed: "reads_only s (scaling_is_needed e hpa api s)"
proof -
  obtain r s1 where g: "get_replicas e hpa api s = (r, s1)"
    by (cases "get_replicas e hpa api s")
  have ro: "reads_only s (r, s1)"
    using reads_only_get_replicas [of s e hpa api] g by simp
  show ?thesis
  proof (cases r)
    case (Inl x)
    with g reads_only_Inl [of s x s1] ro show ?thesis
      by (simp add: scaling_is_needed_def)
  next
    case (Inr p)
    obtain cur needed where p: "p = (cur, needed)"
      by (cases p)
    have "reads_only s (Inr p, s1)"
      using ro Inr by simp
    then have st: "\<And>w. reads_only s (stabilized e hpa api w cur needed s1)"
      by (rule reads_only_trans) (rule reads_only_stabilized)
    have "reads_only s (Inr False :: exn + bool, s1)"
      using ro Inr by (auto simp: reads_only_def)
    with st g Inr p show ?thesis
      by (simp add: scaling_is_needed_def)
  qed
qed

lemma reads_only_patches: "reads_only s r \<Longrightarrow> patches (snd r) = patches s"
  by (auto simp: reads_only_def patches_def)

lemma patches_LOGGER [simp]: "patches (LOGGER lv m s) = patches s"
  by (simp add: patches_def LOGGER_def)

lemma get_replicas_Inr:
  assumes "get_replicas e hpa api s = (Inr (cur, needed), s1)"
  shows "\<exists>sc its. calls s1 = GetMetric (metric_value_path hpa) (Inr its)
                         # ReadScale api (namespace hpa) (name hpa) (Inr sc) # calls s
           \<and> cur = status_replicas (status sc) \<and> needed \<le> 1
           \<and> logged s1 = logged s \<and> HPAs s1 = HPAs s"
  using assms
  by (auto simp: get_replicas_def read_scale_def get_needed_replicas_def request_get_def
      sent_def Let_def raised_def py_int_def
      split: sum.splits api_failure.splits list.splits metric_item.splits if_splits exn.splits)

lemma not_needed_no_patch:
  assumes "scaling_is_needed e hpa api s = (Inr False, s1)"
  shows "patches (snd (update_target_try e hpa api s)) = patches s"
proof -
  have a: "patches s1 = patches s"
    using reads_only_patches [OF reads_only_scaling_is_needed [of s e hpa api]] assms by simp
  have b: "patches (snd (get_replicas e hpa api s1)) = patches s1"
    by (rule reads_only_patches [OF reads_only_get_replicas])
  show ?thesis
    using assms a b
    by (auto simp: update_target_try_def split: prod.splits sum.splits)
qed

lemma update_target_except_patches [simp]:
  "patches (snd (update_target_except hpa r)) = patches (snd r)"
  by (auto simp: update_target_except_def split: prod.splits sum.splits exn.splits)

lemma wait_reaches_same_result:
  "wait_reaches e hpa api t s sp \<Longrightarrow>
     stabilization_wait e hpa api t s = stabilization_wait e hpa api t sp"
proof (induction rule: wait_reaches.induct)
  case (start s)
  show ?case by simp
next
  case (poll s s1 cur needed s2)
  have "stabilization_wait e hpa api t s1
          = stabilization_wait e hpa api t (sleep STABILIZATION_CHECK_INTERVAL s2)"
    using poll.hyps(2,3,4) by (subst stabilization_wait.simps) simp
  with poll.IH show ?case by simp
qed

text \<open>What one evaluation adds to the list of requests.\<close>

lemma update_target_try_calls:
  assumes "update_target_try e hpa api s = (r, s')"
  shows "HPAs s' = HPAs s
         \<and> (r = Inl MetricNotFound \<longrightarrow>
               (\<exists>path st rest. logged s' = (ERROR, CouldNotGetMetric path st) # rest))
         \<and> ((\<exists>new. calls s' = new @ calls s \<and> (\<forall>c\<in>set new. \<not> is_patch c)
                 \<and> ((\<exists>c\<in>set new. metric_unavailable c) \<longrightarrow> r = Inl MetricNotFound))
            \<or> (\<exists>scA scB its n resp older.
                  calls s' = PatchScale api (namespace hpa) (name hpa)
                               (scA\<lparr>spec := (spec scA)\<lparr>spec_replicas := Some n\<rparr>\<rparr>) resp
                             # GetMetric (metric_value_path hpa) (Inr its)
                             # ReadScale api (namespace hpa) (name hpa) (Inr scB)
                             # ReadScale api (namespace hpa) (name hpa) (Inr scA)
                             # older @ calls s
                  \<and> n \<le> 1 \<and> r \<noteq> Inl MetricNotFound
                  \<and> (\<forall>c\<in>set older. \<not> is_patch c \<and> \<not> metric_unavailable c)
                  \<and> \<not> metric_unavailable (GetMetric (metric_value_path hpa) (Inr its))))"
proof -
  obtain r1 s1 where n: "scaling_is_needed e hpa api s = (r1, s1)"
    by (cases "scaling_is_needed e hpa api s")
  have ro1: "reads_only s (r1, s1)"
    using reads_only_scaling_is_needed [of s e hpa api] n by simp
  show ?thesis
  proof (cases r1)
    case (Inl x)
    with n assms have "r = Inl x" "s' = s1"
      by (simp_all add: update_target_try_def)
    with ro1 Inl show ?thesis
      by (auto simp: reads_only_def)
  next
    case (Inr b)
    show ?thesis
    proof (cases b)
      case False
      obtain r2 s2 where g: "get_replicas e hpa api s1 = (r2, s2)"
        by (cases "get_replicas e hpa api s1")
      have "reads_only s1 (r2, s2)"
        using reads_only_get_replicas [of s1 e hpa api] g by simp
      with ro1 [unfolded Inr] have ro2: "reads_only s (r2, s2)"
        by (rule reads_only_trans)
      show ?thesis
      proof (cases r2)
        case (Inl x)
        with n Inr False g assms have "r = Inl x" "s' = s2"
          by (simp_all add: update_target_try_def)
        with ro2 Inl show ?thesis
          by (auto simp: reads_only_def)
      next
        case inr2: (Inr p)
        with n Inr False g assms obtain lv m where "r = Inr ()" "s' = LOGGER lv m s2"
          by (auto simp: update_target_try_def split: prod.splits)
        with ro2 inr2 show ?thesis
          by (auto simp: reads_only_def LOGGER_def)
      qed
    next
      case True
      obtain r2 s2 where rd: "read_scale e api (namespace hpa) (name hpa) s1 = (r2, s2)"
        by (cases "read_scale e api (namespace hpa) (name hpa) s1")
      have "reads_only s1 (r2, s2)"
        using reads_only_read_scale [of s1 e api "namespace hpa" "name hpa"] rd by simp
      with ro1 [unfolded Inr] have ro2: "reads_only s (r2, s2)"
        by (rule reads_only_trans)
      show ?thesis
      proof (cases r2)
        case (Inl x)
        with n Inr True rd assms have "r = Inl x" "s' = s2"
          by (simp_all add: update_target_try_def)
        with ro2 Inl show ?thesis
          by (auto simp: reads_only_def)
      next
        case inr2: (Inr scA)
        have c2: "calls s2 = ReadScale api (namespace hpa) (name hpa) (Inr scA) # calls s1"
          using rd inr2 by (auto simp: read_scale_def sent_def Let_def split: sum.splits)
        obtain r3 s3 where g: "get_replicas e hpa api s2 = (r3, s3)"
          by (cases "get_replicas e hpa api s2")
        have "reads_only s2 (r3, s3)"
          using reads_only_get_replicas [of s2 e hpa api] g by simp
        with ro2 [unfolded inr2] have ro3: "reads_only s (r3, s3)"
          by (rule reads_only_trans)
        show ?thesis
        proof (cases r3)
          case (Inl x)
          with n Inr True rd inr2 g assms have "r = Inl x" "s' = s3"
            by (simp_all add: update_target_try_def)
          with ro3 Inl show ?thesis
            by (auto simp: reads_only_def)
        next
          case inr3: (Inr p)
          obtain cur needed where p: "p = (cur, needed)"
            by (cases p)
          from get_replicas_Inr [of e hpa api s2 cur needed s3] g inr3 p
          obtain scB its where
            c3: "calls s3 = GetMetric (metric_value_path hpa) (Inr its)
                   # ReadScale api (namespace hpa) (name hpa) (Inr scB) # calls s2"
            and le: "needed \<le> 1"
            by auto
          obtain older where o: "calls s1 = older @ calls s"
            "\<forall>c\<in>set older. \<not> is_patch c"
            "(\<exists>c\<in>set older. metric_unavailable c) \<longrightarrow> r1 = Inl MetricNotFound"
            using ro1 by (auto simp: reads_only_def)
          let ?body = "scA\<lparr>spec := (spec scA)\<lparr>spec_replicas := Some needed\<rparr>\<rparr>"
          obtain r4 s4 where pt: "patch_scale e api (namespace hpa) (name hpa) ?body s3 = (r4, s4)"
            by (cases "patch_scale e api (namespace hpa) (name hpa) ?body s3")
          then obtain resp where
            c4: "calls s4 = PatchScale api (namespace hpa) (name hpa) ?body resp # calls s3"
            and h4: "HPAs s4 = HPAs s3" and r4: "r4 \<noteq> Inl MetricNotFound"
            by (auto simp: patch_scale_def sent_def Let_def raised_def
                split: option.splits api_failure.splits)
          have fin: "calls s' = calls s4 \<and> HPAs s' = HPAs s4 \<and> r \<noteq> Inl MetricNotFound"
            using n Inr True rd inr2 g inr3 p pt r4 assms
            by (auto simp: update_target_try_def LOGGER_def split: sum.splits)
          have hp: "HPAs s3 = HPAs s"
            using ro3 by (simp add: reads_only_def)
          have "calls s' = PatchScale api (namespace hpa) (name hpa) ?body resp
                             # GetMetric (metric_value_path hpa) (Inr its)
                             # ReadScale api (namespace hpa) (name hpa) (Inr scB)
                             # ReadScale api (namespace hpa) (name hpa) (Inr scA)
                             # older @ calls s"
            using fin c4 c3 c2 o(1) by simp
          moreover have "\<forall>c\<in>set older. \<not> is_patch c \<and> \<not> metric_unavailable c"
            using o(2,3) Inr by auto
          ultimately show ?thesis
            using fin h4 hp le by auto
        qed
      qed
    qed
  qed
qed

lemma update_target_except_calls [simp]:
  "calls (snd (update_target_except hpa r)) = calls (snd r)"
  "HPAs (snd (update_target_except hpa r)) = HPAs (snd r)"
  by (auto simp: update_target_except_def LOGGER_def split: prod.splits sum.splits exn.splits)

lemma update_target_new_calls:
  assumes "update_target e hpa s = (r, s')"
  shows "\<exists>new. calls s' = new @ calls s \<and> (\<forall>c\<in>set new. patch_at_most_one c)"
proof (cases "select_scale_api (target_kind hpa)")
  case (Inl x)
  with assms have "s' = s"
    by (simp add: update_target_def)
  then show ?thesis
    by simp
next
  case (Inr api)
  obtain r0 s0 where attempt: "update_target_try e hpa api s = (r0, s0)"
    by (cases "update_target_try e hpa api s")
  from assms Inr attempt have "update_target_except hpa (r0, s0) = (r, s')"
    by (simp add: update_target_def)
  then have same: "calls s' = calls s0"
    using update_target_except_calls [of hpa "(r0, s0)"] by simp
  have quiet: "\<And>c. \<not> is_patch c \<Longrightarrow> patch_at_most_one c"
    by (case_tac c) simp_all
  from update_target_try_calls [OF attempt] same show ?thesis
    by (elim conjE disjE exE) (auto simp: quiet)
qed

lemma update_targets_new_calls:
  "update_targets e hpas s = (r, s') \<Longrightarrow>
     \<exists>new. calls s' = new @ calls s \<and> (\<forall>c\<in>set new. patch_at_most_one c)"
proof (induction hpas arbitrary: s)
  case Nil
  then show ?case by simp
next
  case (Cons hpa hpas)
  obtain r1 s1 where u: "update_target e hpa s = (r1, s1)"
    by (cases "update_target e hpa s")
  from update_target_new_calls [OF u] obtain new1 where
    n1: "calls s1 = new1 @ calls s" "\<forall>c\<in>set new1. patch_at_most_one c"
    by auto
  show ?case
  proof (cases r1)
    case (Inl x)
    with Cons.prems u n1 show ?thesis
      by auto
  next
    case (Inr u1)
    with Cons.prems u have "update_targets e hpas s1 = (r, s')"
      by simp
    from Cons.IH [OF this] obtain new2 where
      "calls s' = new2 @ calls s1" "\<forall>c\<in>set new2. patch_at_most_one c"
      by auto
    with n1 have "calls s' = (new2 @ new1) @ calls s \<and> (\<forall>c\<in>set (new2 @ new1). patch_at_most_one c)"
      by auto
    then show ?thesis
      by blast
  qed
qed

lemma watch_metrics_new_calls:
  "watch_metrics e turns s = (p, s') \<Longrightarrow>
     \<exists>new. calls s' = new @ calls s \<and> (\<forall>c\<in>set new. patch_at_most_one c)"
proof (induction turns arbitrary: s)
  case 0
  then show ?case by simp
next
  case (Suc turns)
  obtain r1 s1 where u: "update_targets e (snapshot s) s = (r1, s1)"
    by (cases "update_targets e (snapshot s) s")
  from update_targets_new_calls [OF u] obtain new1 where
    n1: "calls s1 = new1 @ calls s" "\<forall>c\<in>set new1. patch_at_most_one c"
    by auto
  show ?case
  proof (cases r1)
    case (Inl x)
    with Suc.prems u n1 show ?thesis
      by (auto simp: LOGGER_def)
  next
    case (Inr u1)
    with Suc.prems u have "watch_metrics e turns (sleep SYNC_INTERVAL s1) = (p, s')"
      by simp
    from Suc.IH [OF this] obtain new2 where
      "calls s' = new2 @ calls s1" "\<forall>c\<in>set new2. patch_at_most_one c"
      by (auto simp: sleep_def)
    with n1 have "calls s' = (new2 @ new1) @ calls s \<and> (\<forall>c\<in>set (new2 @ new1). patch_at_most_one c)"
      by auto
    then show ?thesis
      by blast
  qed
qed

section \<open>Lemmas about the discovery side\<close>

lemma py_getitem_Inl: "py_getitem x k = Inl y \<Longrightarrow> y = KeyError \<or> y = TypeError"
  by (auto simp: py_getitem_def split: json.splits option.splits)

lemma next_object_Inl:
  "next_object ms = Inl y \<Longrightarrow> y = StopIteration \<or> y = KeyError \<or> y = TypeError"
proof (induction ms)
  case Nil
  then show ?case by simp
next
  case (Cons m ms)
  then show ?case
    by (auto split: sum.splits if_splits dest: py_getitem_Inl)
qed

lemma custom_metric_and_target_Inl:
  "custom_metric_and_target metrics = Inl y \<Longrightarrow>
     y = StopIteration \<or> y = AssertionError \<or> y = KeyError \<or> y = TypeError \<or> y = AttributeError"
  by (auto simp: custom_metric_and_target_def py_iter_def py_get_def
      split: sum.splits json.splits option.splits if_splits
      dest: py_getitem_Inl next_object_Inl)

lemma build_metric_value_path_fst:
  "fst (build_metric_value_path e hpa s) = fst (build_metric_value_path e hpa s0)"
  by (simp add: build_metric_value_path_def split: option.splits sum.splits prod.splits)

lemma build_metric_value_path_snd:
  "HPAs (snd (build_metric_value_path e hpa s)) = HPAs s"
  "calls (snd (build_metric_value_path e hpa s)) = calls s"
  "logged (snd (build_metric_value_path e hpa s))
     = (if fst (build_metric_value_path e hpa s) = Inl StopIteration
           \<or> fst (build_metric_value_path e hpa s) = Inl AssertionError
        then [(ERROR, OnlySupportsOne)] else []) @ logged s"
  by (auto simp: build_metric_value_path_def LOGGER_def
      split: option.splits sum.splits prod.splits dest: py_getitem_Inl)

lemma build_metric_value_path_Inl:
  "fst (build_metric_value_path e hpa s) = Inl y \<Longrightarrow>
     y = StopIteration \<or> y = AssertionError \<or> y = KeyError \<or> y = TypeError
     \<or> y = AttributeError \<or> y = ValueError"
  by (auto simp: build_metric_value_path_def
      split: option.splits sum.splits prod.splits if_splits
      dest: py_getitem_Inl custom_metric_and_target_Inl)

text \<open>What \<^verbatim>\<open>update_hpa\<close> does, by the answer to its read.\<close>

lemma update_hpa_cases:
  assumes "update_hpa e ns nm up down s = (r, s')"
  shows "calls s' = ReadHpa ns nm (read_hpa_resp e (length (calls s)) ns nm) # calls s
         \<and> ((\<exists>x. r = Inl x \<and> HPAs s' = HPAs s
                \<and> read_hpa_resp e (length (calls s)) ns nm \<noteq> Inl (Status 404)
                \<and> (\<forall>hpa. read_hpa_resp e (length (calls s)) ns nm = Inr hpa \<longrightarrow>
                      fst (build_metric_value_path e hpa s) = Inl x
                      \<and> logged s' = (if x = StopIteration \<or> x = AssertionError
                                     then [(ERROR, OnlySupportsOne)] else []) @ logged s))
            \<or> (r = Inr () \<and> read_hpa_resp e (length (calls s)) ns nm = Inl (Status 404)
                \<and> HPAs s' = AList.delete (ns @ ''/'' @ nm) (HPAs s))
            \<or> (\<exists>hpa path. r = Inr ()
                \<and> read_hpa_resp e (length (calls s)) ns nm = Inr hpa
                \<and> fst (build_metric_value_path e hpa s) = Inr path
                \<and> HPAs s' = AList.update (ns @ ''/'' @ nm)
                      \<lparr>name = nm, namespace = ns, metric_value_path = path,
                       target_kind = scale_target_ref_kind hpa,
                       target_name = scale_target_ref_name hpa,
                       scale_up_stabilization_window = up,
                       scale_down_stabilization_window = down\<rparr> (HPAs s)))"
proof (cases "read_hpa_resp e (length (calls s)) ns nm")
  case (Inl f)
  with assms show ?thesis
    by (cases f) (auto simp: update_hpa_def read_hpa_def sent_def LOGGER_def Let_def raised_def
        split: if_splits)
next
  case (Inr hpa)
  let ?s1 = "sent e (ReadHpa ns nm (Inr hpa)) s"
  obtain b s2 where b: "build_metric_value_path e hpa ?s1 = (b, s2)"
    by (cases "build_metric_value_path e hpa ?s1")
  have fst_b: "fst (build_metric_value_path e hpa s) = b"
    using build_metric_value_path_fst [of e hpa s ?s1] b by simp
  have snd_b: "HPAs s2 = HPAs s" "calls s2 = ReadHpa ns nm (Inr hpa) # calls s"
    "logged s2 = (if b = Inl StopIteration \<or> b = Inl AssertionError
                  then [(ERROR, OnlySupportsOne)] else []) @ logged s"
    using build_metric_value_path_snd [of e hpa ?s1] b by (simp_all add: sent_def)
  show ?thesis
  proof (cases b)
    case bad: (Inl x)
    with build_metric_value_path_Inl [of e hpa s x] fst_b
    have "x = StopIteration \<or> x = AssertionError \<or> x = KeyError \<or> x = TypeError
          \<or> x = AttributeError \<or> x = ValueError"
      by simp
    with assms Inr b bad have "r = Inl x" "s' = s2"
      by (auto simp: update_hpa_def read_hpa_def Let_def)
    with Inr bad fst_b snd_b show ?thesis
      by simp
  next
    case good: (Inr path)
    with assms Inr b fst_b snd_b show ?thesis
      by (auto simp: update_hpa_def read_hpa_def Let_def)
  qed
qed

lemma unresolved_annotation_raises:
  assumes read: "read_hpa_resp e (length (calls s)) (object_namespace ev) (object_name ev) = Inr hpa"
    and fails: "fst (build_metric_value_path e hpa s) = Inl x"
  shows "\<exists>s'. update_hpa e (object_namespace ev) (object_name ev)
                 (up_stabilization_window a) (down_stabilization_window a) s = (Inl x, s')
           \<and> HPAs s' = HPAs s
           \<and> logged s' = (if x = StopIteration \<or> x = AssertionError
                          then [(ERROR, OnlySupportsOne)] else []) @ logged s
           \<and> watch_events e a (ev # evs) s = (Inl x, s')
           \<and> watch_streams e a ((ev # evs, fin) # sts) s = (Inl x, s')"
proof -
  obtain r s' where u: "update_hpa e (object_namespace ev) (object_name ev)
                          (up_stabilization_window a) (down_stabilization_window a) s = (r, s')"
    by (cases "update_hpa e (object_namespace ev) (object_name ev)
                 (up_stabilization_window a) (down_stabilization_window a) s")
  from update_hpa_cases [OF u] read fails
  have r: "r = Inl x" and h: "HPAs s' = HPAs s"
    and l: "logged s' = (if x = StopIteration \<or> x = AssertionError
                         then [(ERROR, OnlySupportsOne)] else []) @ logged s"
    by auto
  from u r have ev: "watch_events e a (ev # evs) s = (Inl x, s')"
    by simp
  from build_metric_value_path_Inl [OF fails] ev
  have "watch_streams e a ((ev # evs, fin) # sts) s = (Inl x, s')"
    by (auto simp: watch_stream_def)
  with u r h l ev show ?thesis
    by simp
qed

lemma next_object_none:
  "\<forall>m\<in>set ms. py_getitem m ''type'' \<noteq> Inr (JStr ''Object'') \<Longrightarrow> \<exists>x. next_object ms = Inl x"
  by (induction ms) (auto simp: py_eq_str_def split: sum.splits)

lemma next_object_skip:
  "\<forall>p\<in>set pre. py_getitem p ''type'' \<noteq> Inr (JStr ''Object'') \<Longrightarrow>
     (\<exists>x. next_object (pre @ rest) = Inl x) \<or> next_object (pre @ rest) = next_object rest"
  by (induction pre) (auto simp: py_eq_str_def split: sum.splits)

lemma set_update_subset: "set (AList.update k v al) \<subseteq> insert (k, v) (set al)"
  by (induction al) auto

lemma registry_keyed_update:
  "registry_keyed hs \<Longrightarrow> k = namespace h @ ''/'' @ name h \<Longrightarrow> registry_keyed (AList.update k h hs)"
  using set_update_subset [of k h hs] by (auto simp: registry_keyed_def list_all_iff)

lemma registry_keyed_delete: "registry_keyed hs \<Longrightarrow> registry_keyed (AList.delete k hs)"
  by (auto simp: registry_keyed_def list_all_iff AList.delete_eq)

lemma annotation_resolves_iff:
  "annotation_resolves e hpa = (\<exists>path. fst (build_metric_value_path e hpa s) = Inr path)"
  using build_metric_value_path_fst [of e hpa s "\<lparr>HPAs = [], clock = 0, calls = [], logged = []\<rparr>"]
  by (auto simp: annotation_resolves_def split: sum.splits)

lemma update_hpa_readmits:
  assumes u: "update_hpa e ns nm up down s = (r, s')" and keyed: "registry_keyed (HPAs s)"
  shows "registry_keyed (HPAs s')
         \<and> (\<exists>c. calls s' = c # calls s
               \<and> (k \<in> fst ` set (HPAs s') \<longrightarrow> k \<in> fst ` set (HPAs s) \<or> readmits e k c))"
proof -
  note cases = update_hpa_cases [OF u]
  let ?resp = "read_hpa_resp e (length (calls s)) ns nm"
  from cases have c: "calls s' = ReadHpa ns nm ?resp # calls s"
    by simp
  from cases consider
    (raised) "HPAs s' = HPAs s"
    | (forgotten) "HPAs s' = AList.delete (ns @ ''/'' @ nm) (HPAs s)"
    | (upserted) hpa path where "?resp = Inr hpa"
        "fst (build_metric_value_path e hpa s) = Inr path"
        "HPAs s' = AList.update (ns @ ''/'' @ nm)
           \<lparr>name = nm, namespace = ns, metric_value_path = path,
            target_kind = scale_target_ref_kind hpa,
            target_name = scale_target_ref_name hpa,
            scale_up_stabilization_window = up,
            scale_down_stabilization_window = down\<rparr> (HPAs s)"
    by blast
  then show ?thesis
  proof cases
    case raised
    with keyed c show ?thesis
      by simp
  next
    case forgotten
    with keyed c dom_delete_subset [of "ns @ ''/'' @ nm" "HPAs s"] show ?thesis
      by (auto simp: registry_keyed_delete)
  next
    case upserted
    from upserted(2) have "annotation_resolves e hpa"
      by (auto simp: annotation_resolves_iff [of e hpa s])
    with upserted(1) have "k = ns @ ''/'' @ nm \<longrightarrow> readmits e k (ReadHpa ns nm ?resp)"
      by simp
    moreover have "registry_keyed (HPAs s')"
      using keyed upserted(3) by (simp add: registry_keyed_update)
    ultimately show ?thesis
      using c upserted(3) by (auto simp: dom_update)
  qed
qed

lemma watch_events_readmits:
  "watch_events e a evs s = (r, s') \<Longrightarrow> registry_keyed (HPAs s) \<Longrightarrow>
     registry_keyed (HPAs s')
     \<and> (\<exists>new. calls s' = new @ calls s
           \<and> (k \<in> fst ` set (HPAs s') \<longrightarrow>
                 k \<in> fst ` set (HPAs s) \<or> (\<exists>c\<in>set new. readmits e k c)))"
proof (induction evs arbitrary: s)
  case Nil
  then show ?case by simp
next
  case (Cons ev evs)
  obtain r1 s1 where u: "update_hpa e (object_namespace ev) (object_name ev)
                           (up_stabilization_window a) (down_stabilization_window a) s = (r1, s1)"
    by (cases "update_hpa e (object_namespace ev) (object_name ev)
                 (up_stabilization_window a) (down_stabilization_window a) s")
  from update_hpa_readmits [OF u Cons.prems(2), of k] obtain c where
    k1: "registry_keyed (HPAs s1)" "calls s1 = c # calls s"
    "k \<in> fst ` set (HPAs s1) \<longrightarrow> k \<in> fst ` set (HPAs s) \<or> readmits e k c"
    by auto
  show ?case
  proof (cases r1)
    case (Inl x)
    with Cons.prems(1) u have "s' = s1"
      by simp
    with k1 have "calls s' = [c] @ calls s
                  \<and> (k \<in> fst ` set (HPAs s') \<longrightarrow>
                        k \<in> fst ` set (HPAs s) \<or> (\<exists>c\<in>set [c]. readmits e k c))"
      by simp
    with k1(1) \<open>s' = s1\<close> show ?thesis
      by blast
  next
    case (Inr u1)
    with Cons.prems(1) u have "watch_events e a evs s1 = (r, s')"
      by simp
    from Cons.IH [OF this k1(1)] obtain new where
      k2: "registry_keyed (HPAs s')" "calls s' = new @ calls s1"
      "k \<in> fst ` set (HPAs s') \<longrightarrow> k \<in> fst ` set (HPAs s1) \<or> (\<exists>c\<in>set new. readmits e k c)"
      by auto
    with k1 have "calls s' = (new @ [c]) @ calls s
                  \<and> (k \<in> fst ` set (HPAs s') \<longrightarrow>
                        k \<in> fst ` set (HPAs s) \<or> (\<exists>c\<in>set (new @ [c]). readmits e k c))"
      by auto
    with k2(1) show ?thesis
      by blast
  qed
qed

lemma watch_streams_readmits:
  "watch_streams e a sts s = (r, s') \<Longrightarrow> registry_keyed (HPAs s) \<Longrightarrow>
     registry_keyed (HPAs s')
     \<and> (\<exists>new. calls s' = new @ calls s
           \<and> (k \<in> fst ` set (HPAs s') \<longrightarrow>
                 k \<in> fst ` set (HPAs s) \<or> (\<exists>c\<in>set new. readmits e k c)))"
proof (induction sts arbitrary: s)
  case Nil
  then show ?case by simp
next
  case (Cons st sts)
  obtain r0 s0 where w: "watch_events e a (fst st) s = (r0, s0)"
    by (cases "watch_events e a (fst st) s")
  from watch_events_readmits [OF w Cons.prems(2), of k] obtain new1 where
    k1: "registry_keyed (HPAs s0)" "calls s0 = new1 @ calls s"
    "k \<in> fst ` set (HPAs s0) \<longrightarrow> k \<in> fst ` set (HPAs s) \<or> (\<exists>c\<in>set new1. readmits e k c)"
    by auto
  have "snd (watch_stream e a st s) = s0"
    using w by (simp add: watch_stream_def split: sum.splits stream_end.splits)
  then obtain r1 where w1: "watch_stream e a st s = (r1, s0)"
    by (metis prod.collapse)
  show ?case
  proof (cases "watch_streams e a (st # sts) s = (r1, s0)")
    case True
    with Cons.prems(1) have "s' = s0"
      by simp
    with k1 show ?thesis
      by blast
  next
    case False
    with Cons.prems(1) w1 have "watch_streams e a sts s0 = (r, s')"
      by (auto split: sum.splits exn.splits if_splits)
    from Cons.IH [OF this k1(1)] obtain new2 where
      k2: "registry_keyed (HPAs s')" "calls s' = new2 @ calls s0"
      "k \<in> fst ` set (HPAs s') \<longrightarrow> k \<in> fst ` set (HPAs s0) \<or> (\<exists>c\<in>set new2. readmits e k c)"
      by auto
    with k1 have "calls s' = (new2 @ new1) @ calls s
                  \<and> (k \<in> fst ` set (HPAs s') \<longrightarrow>
                        k \<in> fst ` set (HPAs s) \<or> (\<exists>c\<in>set (new2 @ new1). readmits e k c))"
      by auto
    with k2(1) show ?thesis
      by blast
  qed
qed

lemma snapshot_keys:
  "registry_keyed (HPAs s) \<Longrightarrow> h \<in> set (snapshot s) \<Longrightarrow>
     namespace h @ ''/'' @ name h \<in> fst ` set (HPAs s)"
  by (force simp: registry_keyed_def list_all_iff snapshot_def)

section \<open>The claims\<close>

lemmas model_defs =
  get_needed_replicas_def get_replicas_def read_scale_def request_get_def patch_scale_def
  sent_def LOGGER_def sleep_def Let_def raised_def py_int_def scaling_is_needed_def
  stabilized_def scaling_up_is_needed_def scaling_down_is_needed_def py_bool_int_def
  update_target_def update_target_try_def update_target_except_def select_scale_api_def
  MICROSECONDS_def STABILIZATION_CHECK_INTERVAL_def SYNC_INTERVAL_def snapshot_def

lemmas example_defs = world0_def web_scale_def web_path_def web_hpa_def cluster_def

lemmas discovery_defs =
  update_hpa_def read_hpa_def build_metric_value_path_def custom_metric_and_target_def
  py_getitem_def py_get_def py_iter_def py_bool_def py_eq_str_def py_format_def
  watch_hpa_def watch_stream_def METRICS_ANNOTATION_def

lemmas discovery_example_defs =
  no_metric_text_def one_metric_text_def two_metrics_text_def selector_metric_text_def
  pod_metric_text_def metric_entry_def example_loads_def annotated_def api_server_def
  watch_args_def event_of_def

subsection \<open>C1: the desired replica count\<close>




subsection \<open>C2: agreement during the wait cancels the scale\<close>

text \<open>
  Claim C2. Let the first read of an evaluation find that scaling is needed and let the
  selected window \<open>w\<close> be nonzero. If the polling loop reaches a turn before the end of
  the window (\<open>wait_reaches\<close>: every earlier turn read counts whose truth values differ,
  and slept) and the fresh read of this turn gives counts whose truth values agree, then
  \<^verbatim>\<open>scaling_is_needed\<close> logs the cancellation and returns \<open>False\<close>, and \<^verbatim>\<open>update_target\<close>
  issues no patch.
\<close>

theorem agreement_during_wait_cancels:
  assumes first: "get_replicas e hpa api s = (Inr (cur0, needed0), s0)"
    and intent: "scaling_up_is_needed cur0 needed0 \<and> w = scale_up_stabilization_window hpa
                 \<or> \<not> scaling_up_is_needed cur0 needed0 \<and> scaling_down_is_needed cur0 needed0
                     \<and> w = scale_down_stabilization_window hpa"
    and window: "w \<noteq> 0"
    and reached: "wait_reaches e hpa api (clock s0 + w * MICROSECONDS)
                    (LOGGER INFO (WaitingForStabilization (target_kind hpa) (namespace hpa)
                       (name hpa) cur0 needed0) s0) sp"
    and before_end: "clock sp < clock s0 + w * MICROSECONDS"
    and fresh: "get_replicas e hpa api sp = (Inr (cur, needed), sp1)"
    and agree: "py_bool_int cur = py_bool_int needed"
    and api: "select_scale_api (target_kind hpa) = Inr api"
  shows "scaling_is_needed e hpa api s
           = (Inr False, LOGGER INFO (ScaleCanceled (target_kind hpa) (namespace hpa) (name hpa)) sp1)
         \<and> patches (snd (update_target e hpa s)) = patches s"
proof -
  let ?t = "clock s0 + w * MICROSECONDS"
  let ?canceled = "LOGGER INFO (ScaleCanceled (target_kind hpa) (namespace hpa) (name hpa)) sp1"
  have "stabilization_wait e hpa api ?t sp = (Inr False, ?canceled)"
    using before_end fresh agree by (subst stabilization_wait.simps) simp
  with wait_reaches_same_result [OF reached]
  have "stabilized e hpa api w cur0 needed0 s0 = (Inr False, ?canceled)"
    using window by (simp add: stabilized_def LOGGER_def)
  with first intent have n: "scaling_is_needed e hpa api s = (Inr False, ?canceled)"
    by (auto simp: scaling_is_needed_def)
  from not_needed_no_patch [OF n] api
  have "patches (snd (update_target e hpa s)) = patches s"
    by (simp add: update_target_def)
  with n show ?thesis by simp
qed

text \<open>
  C2 at a cluster that runs three replicas, with a scale-down window of five seconds.
  The metric is \<open>0\<close> at the first read and at the first poll and \<open>7\<close> at the second poll,
  one second into the window: the scale is canceled there and nothing is patched.
\<close>

theorem agreement_during_wait_cancels_witness:
  "fst (scaling_is_needed
          (cluster (\<lambda>i. Inr (web_scale ''7'' (Some 3) 3))
                   (\<lambda>i. if i < 4 then Inr [Value_int 0] else Inr [Value_int 7]))
          (web_hpa 0 5) DeploymentScale world0) = Inr False
   \<and> clock (snd (scaling_is_needed
          (cluster (\<lambda>i. Inr (web_scale ''7'' (Some 3) 3))
                   (\<lambda>i. if i < 4 then Inr [Value_int 0] else Inr [Value_int 7]))
          (web_hpa 0 5) DeploymentScale world0)) = 1000000
   \<and> patches (snd (update_target
          (cluster (\<lambda>i. Inr (web_scale ''7'' (Some 3) 3))
                   (\<lambda>i. if i < 4 then Inr [Value_int 0] else Inr [Value_int 7]))
          (web_hpa 0 5) world0)) = []"
proof -
  let ?e = "cluster (\<lambda>i. Inr (web_scale ''7'' (Some 3) 3))
                    (\<lambda>i. if i < 4 then Inr [Value_int 0] else Inr [Value_int 7])"
  let ?h = "web_hpa 0 5"
  let ?s0 = "snd (get_replicas ?e ?h DeploymentScale world0)"
  let ?sw = "LOGGER INFO (WaitingForStabilization (target_kind ?h) (namespace ?h) (name ?h) 3 0) ?s0"
  let ?s2 = "snd (get_replicas ?e ?h DeploymentScale ?sw)"
  let ?sp = "sleep STABILIZATION_CHECK_INTERVAL ?s2"
  let ?sp1 = "snd (get_replicas ?e ?h DeploymentScale ?sp)"
  let ?t = "clock ?s0 + 5 * MICROSECONDS"
  have first: "get_replicas ?e ?h DeploymentScale world0 = (Inr (3, 0), ?s0)"
    by (simp add: example_defs model_defs)
  have intent: "scaling_up_is_needed 3 0 \<and> 5 = scale_up_stabilization_window ?h
                \<or> \<not> scaling_up_is_needed 3 0 \<and> scaling_down_is_needed 3 0
                    \<and> 5 = scale_down_stabilization_window ?h"
    by (simp add: example_defs model_defs)
  have c1: "clock ?sw < ?t"
    by (simp add: example_defs model_defs)
  have g1: "get_replicas ?e ?h DeploymentScale ?sw = (Inr (3, 0), ?s2)"
    by (simp add: example_defs model_defs)
  have d1: "py_bool_int 3 \<noteq> py_bool_int 0"
    by (simp add: py_bool_int_def)
  have reached: "wait_reaches ?e ?h DeploymentScale ?t ?sw ?sp"
    by (rule wait_reaches.poll [OF wait_reaches.start c1 g1 d1])
  have c2: "clock ?sp < ?t"
    by (simp add: example_defs model_defs)
  have fresh: "get_replicas ?e ?h DeploymentScale ?sp = (Inr (3, 1), ?sp1)"
    by (simp add: example_defs model_defs)
  have agree: "py_bool_int 3 = py_bool_int 1"
    by (simp add: py_bool_int_def)
  have api: "select_scale_api (target_kind ?h) = Inr DeploymentScale"
    by (simp add: example_defs model_defs)
  have at: "clock ?sp1 = 1000000" "patches world0 = []"
    by (simp_all add: example_defs model_defs patches_def)
  from agreement_during_wait_cancels [OF first intent _ reached c2 fresh agree api] at
  show ?thesis
    by (simp add: LOGGER_def)
qed

subsection \<open>C3: a scale target that is not found\<close>

text \<open>
  Claim C3 against the code. The cluster answers the first scale read with 404.
  \<^verbatim>\<open>get_replicas\<close> logs its warning and then uses the variable that was never bound:
  \<^verbatim>\<open>UnboundLocalError\<close> leaves \<^verbatim>\<open>update_target\<close>, whose handlers do not catch it, and the
  loop of \<^verbatim>\<open>watch_metrics\<close> logs it and ends the process with \<^verbatim>\<open>os._exit(1)\<close>. Only the
  read that \<^verbatim>\<open>update_target\<close> makes itself, before the patch, is skipped as the claim
  says: the last conjunct has the 404 there, and \<^verbatim>\<open>update_target\<close> returns normally.
\<close>

theorem scale_not_found_ends_process:
  "fst (update_target (cluster (\<lambda>i. Inl (Status 404)) (\<lambda>i. Inr [Value_int 0]))
          (web_hpa 0 0) world0) = Inl UnboundLocalError
   \<and> watch_metrics (cluster (\<lambda>i. Inl (Status 404)) (\<lambda>i. Inr [Value_int 0])) 1
        (world0\<lparr>HPAs := [(''default/web'', web_hpa 0 0)]\<rparr>)
       = (Exited 1,
          \<lparr>HPAs = [(''default/web'', web_hpa 0 0)], clock = 0,
           calls = [ReadScale DeploymentScale ''default'' ''web'' (Inl (Status 404))],
           logged = [(ERROR, Exiting UnboundLocalError),
                     (WARNING, ScaleNotFound ''default'' ''web'')]\<rparr>)
   \<and> update_target
        (cluster (\<lambda>i. if i = 2 then Inl (Status 404) else Inr (web_scale ''7'' None 0))
                 (\<lambda>i. Inr [Value_int 5]))
        (web_hpa 0 0) world0
       = (Inr (),
          \<lparr>HPAs = [], clock = 0,
           calls = [ReadScale DeploymentScale ''default'' ''web'' (Inl (Status 404)),
                    GetMetric web_path (Inr [Value_int 5]),
                    ReadScale DeploymentScale ''default'' ''web'' (Inr (web_scale ''7'' None 0))],
           logged = [(WARNING, TargetNotFound ''Deployment'' ''default'' ''web'')]\<rparr>)"
  by (simp add: numeral_eq_Suc example_defs model_defs)

subsection \<open>C4: an annotation that does not resolve\<close>

text \<open>
  Claim C4, which says that a failure to resolve the metric annotation never goes beyond
  the event and that the watcher continues, is false. The HPA \<open>broken\<close> has the annotation
  \<^verbatim>\<open>[]\<close>, with no metric of type Object: \<^verbatim>\<open>StopIteration\<close> leaves \<^verbatim>\<open>watch_hpa\<close>, and the
  event for \<open>web\<close> that follows in the stream is never processed, although on its own
  it puts \<open>web\<close> into \<^verbatim>\<open>HPAs\<close>.
\<close>

theorem unresolved_annotation_propagates:
  "fst (watch_hpa
          (api_server (\<lambda>i nm. if nm = ''broken'' then Inr (annotated no_metric_text)
                                else Inr (annotated one_metric_text)))
          watch_args [([event_of MODIFIED ''broken'', event_of ADDED ''web''], Closed)] world0)
     = Inl StopIteration
   \<and> HPAs (snd (watch_hpa
          (api_server (\<lambda>i nm. if nm = ''broken'' then Inr (annotated no_metric_text)
                                else Inr (annotated one_metric_text)))
          watch_args [([event_of MODIFIED ''broken'', event_of ADDED ''web''], Closed)] world0))
     = []
   \<and> map fst (HPAs (snd (watch_hpa
          (api_server (\<lambda>i nm. if nm = ''broken'' then Inr (annotated no_metric_text)
                                else Inr (annotated one_metric_text)))
          watch_args [([event_of ADDED ''web''], Closed)] world0)))
     = [''default/web'']"
  by (simp add: discovery_defs discovery_example_defs example_defs model_defs)

text \<open>
  Claim C4 as amended. When the HPA of an event is read and \<^verbatim>\<open>build_metric_value_path\<close>
  raises \<open>x\<close> for its annotation, \<^verbatim>\<open>update_hpa\<close> raises \<open>x\<close> and leaves \<^verbatim>\<open>HPAs\<close> as it was;
  the failure is logged when \<open>x\<close> is \<^verbatim>\<open>StopIteration\<close> or \<^verbatim>\<open>AssertionError\<close> (the wrong
  shape) and not logged otherwise (an annotation that is missing or is not JSON, or a
  value of another type). The exception is handled nowhere: it ends the loop over the
  events, so that the events that follow are not processed, and leaves \<^verbatim>\<open>watch_hpa\<close>.
\<close>

theorem unresolved_annotation_ends_watch:
  assumes read: "read_hpa_resp e (length (calls s)) (object_namespace ev) (object_name ev) = Inr hpa"
    and fails: "fst (build_metric_value_path e hpa s) = Inl x"
  shows "\<exists>s'. update_hpa e (object_namespace ev) (object_name ev)
                 (up_stabilization_window a) (down_stabilization_window a) s = (Inl x, s')
           \<and> HPAs s' = HPAs s
           \<and> logged s' = (if x = StopIteration \<or> x = AssertionError
                          then [(ERROR, OnlySupportsOne)] else []) @ logged s
           \<and> watch_events e a (ev # evs) s = (Inl x, s')
           \<and> watch_streams e a ((ev # evs, fin) # sts) s = (Inl x, s')
           \<and> fst (watch_hpa e a ((ev # evs, fin) # sts) s) = Inl x"
proof -
  let ?s3 = "LOGGER INFO (DownWindowIs (down_stabilization_window a))
               (LOGGER INFO (UpWindowIs (up_stabilization_window a))
                 (LOGGER INFO (WillWatch (hpa_label_selector a) (hpa_namespace_arg a)) s))"
  have "read_hpa_resp e (length (calls ?s3)) (object_namespace ev) (object_name ev) = Inr hpa"
    using read by (simp add: LOGGER_def)
  moreover have "fst (build_metric_value_path e hpa ?s3) = Inl x"
    using fails build_metric_value_path_fst [of e hpa ?s3 s] by simp
  ultimately have "fst (watch_streams e a ((ev # evs, fin) # sts) ?s3) = Inl x"
    using unresolved_annotation_raises [of e ?s3 ev hpa x a evs fin sts] by auto
  then have "fst (watch_hpa e a ((ev # evs, fin) # sts) s) = Inl x"
    by (simp add: watch_hpa_def)
  with unresolved_annotation_raises [OF read fails, of a evs fin sts] show ?thesis
    by auto
qed

text \<open>
  C4 as amended, at the event for \<open>broken\<close>, whose annotation has no metric of type
  Object, and at an event for an HPA whose annotation is not JSON.
\<close>

theorem unresolved_annotation_ends_watch_witness:
  "fst (update_hpa (api_server (\<lambda>i nm. Inr (annotated no_metric_text)))
          ''default'' ''broken'' 0 0 world0) = Inl StopIteration
   \<and> logged (snd (update_hpa (api_server (\<lambda>i nm. Inr (annotated no_metric_text)))
          ''default'' ''broken'' 0 0 world0)) = [(ERROR, OnlySupportsOne)]
   \<and> fst (watch_hpa (api_server (\<lambda>i nm. Inr (annotated no_metric_text))) watch_args
          [([event_of MODIFIED ''broken'', event_of ADDED ''web''], Closed)] world0)
       = Inl StopIteration
   \<and> fst (update_hpa (api_server (\<lambda>i nm. Inr (annotated ''{'')))
          ''default'' ''broken'' 0 0 world0) = Inl ValueError
   \<and> logged (snd (update_hpa (api_server (\<lambda>i nm. Inr (annotated ''{'')))
          ''default'' ''broken'' 0 0 world0)) = []"
proof -
  let ?e = "api_server (\<lambda>i nm. Inr (annotated no_metric_text))"
  let ?f = "api_server (\<lambda>i nm. Inr (annotated ''{''))"
  let ?ev = "event_of MODIFIED ''broken''"
  have ev: "object_namespace ?ev = ''default''" "object_name ?ev = ''broken''"
    "up_stabilization_window watch_args = 0" "down_stabilization_window watch_args = 0"
    "logged world0 = []"
    by (simp_all add: event_of_def watch_args_def world0_def)
  have read: "read_hpa_resp ?e (length (calls world0)) (object_namespace ?ev) (object_name ?ev)
                = Inr (annotated no_metric_text)"
    by (simp add: api_server_def)
  have fails: "fst (build_metric_value_path ?e (annotated no_metric_text) world0) = Inl StopIteration"
    by (simp add: discovery_defs discovery_example_defs)
  have read': "read_hpa_resp ?f (length (calls world0)) (object_namespace ?ev) (object_name ?ev)
                 = Inr (annotated ''{'')"
    by (simp add: api_server_def)
  have fails': "fst (build_metric_value_path ?f (annotated ''{'') world0) = Inl ValueError"
    by (simp add: discovery_defs discovery_example_defs)
  from unresolved_annotation_ends_watch [OF read fails, of watch_args "[event_of ADDED ''web'']" Closed "[]"]
    unresolved_annotation_ends_watch [OF read' fails', of watch_args "[]" Closed "[]"] ev
  show ?thesis
    by auto
qed

subsection \<open>C5: which annotations are rejected\<close>

text \<open>
  Claim C5, which says that an HPA whose annotation has two or more qualifying Object
  metrics is never put into the registry, is false. The annotation of \<open>web\<close> has two
  metrics of type Object, both on a Service and without selector: \<^verbatim>\<open>update_hpa\<close> returns
  normally and \<^verbatim>\<open>HPAs\<close> holds \<open>web\<close>, with the path of the first of the two metrics.
\<close>

theorem two_object_metrics_upserted:
  "json_loads (api_server (\<lambda>i nm. Inr (annotated two_metrics_text))) two_metrics_text
     = Some (JList [metric_entry ''Service'' ''web'' ''requests'' [],
                    metric_entry ''Service'' ''api'' ''errors'' []])
   \<and> fst (update_hpa (api_server (\<lambda>i nm. Inr (annotated two_metrics_text)))
            ''default'' ''web'' 0 0 world0) = Inr ()
   \<and> HPAs (snd (update_hpa (api_server (\<lambda>i nm. Inr (annotated two_metrics_text)))
            ''default'' ''web'' 0 0 world0)) = [(''default/web'', web_hpa 0 0)]"
  by (simp add: discovery_defs discovery_example_defs example_defs model_defs)

text \<open>
  Claim C5 as amended. Let the HPA of an event be read and let its annotation be a JSON
  list. If no element of the list has the type Object, or if the first element with
  the type Object has an object with a selector that is not empty or with a target
  whose kind is not Service, then \<^verbatim>\<open>update_hpa\<close> raises and leaves \<^verbatim>\<open>HPAs\<close> as it was: the
  event does not put the HPA into the registry. Only the first Object metric is looked
  at; further ones do not lead to rejection.
\<close>

theorem unqualified_metric_not_upserted:
  assumes read: "read_hpa_resp e (length (calls s)) ns nm = Inr hpa"
    and ann: "hpa_annotations hpa = Some anns" "map_of anns METRICS_ANNOTATION = Some text"
      "json_loads e text = Some (JList ms)"
    and shape:
      "(\<forall>m\<in>set ms. py_getitem m ''type'' \<noteq> Inr (JStr ''Object''))
       \<or> (\<exists>pre m post obj.
             ms = pre @ m # post
             \<and> (\<forall>p\<in>set pre. py_getitem p ''type'' \<noteq> Inr (JStr ''Object''))
             \<and> py_getitem m ''type'' = Inr (JStr ''Object'')
             \<and> py_getitem m ''object'' = Inr obj
             \<and> ((\<exists>sel. py_get obj ''selector'' = Inr sel \<and> py_bool sel)
                \<or> (\<exists>tgt k. py_getitem obj ''target'' = Inr tgt
                      \<and> py_getitem tgt ''kind'' = Inr k \<and> k \<noteq> JStr ''Service'')))"
  shows "\<exists>x s'. update_hpa e ns nm up down s = (Inl x, s') \<and> HPAs s' = HPAs s"
proof -
  have "\<exists>x. custom_metric_and_target (JList ms) = Inl x"
    using shape
  proof (elim disjE exE conjE)
    assume "\<forall>m\<in>set ms. py_getitem m ''type'' \<noteq> Inr (JStr ''Object'')"
    from next_object_none [OF this] show ?thesis
      by (auto simp: custom_metric_and_target_def py_iter_def)
  next
    fix pre m post obj sel
    assume ms: "ms = pre @ m # post"
      and pre: "\<forall>p\<in>set pre. py_getitem p ''type'' \<noteq> Inr (JStr ''Object'')"
      and m: "py_getitem m ''type'' = Inr (JStr ''Object'')" "py_getitem m ''object'' = Inr obj"
      and sel: "py_get obj ''selector'' = Inr sel" "py_bool sel"
    from next_object_skip [OF pre, of "m # post"] m
    have "(\<exists>x. next_object ms = Inl x) \<or> next_object ms = Inr obj"
      by (simp add: ms py_eq_str_def)
    with sel show ?thesis
      by (auto simp: custom_metric_and_target_def py_iter_def)
  next
    fix pre m post obj tgt k
    assume ms: "ms = pre @ m # post"
      and pre: "\<forall>p\<in>set pre. py_getitem p ''type'' \<noteq> Inr (JStr ''Object'')"
      and m: "py_getitem m ''type'' = Inr (JStr ''Object'')" "py_getitem m ''object'' = Inr obj"
      and tgt: "py_getitem obj ''target'' = Inr tgt" "py_getitem tgt ''kind'' = Inr k"
        "k \<noteq> JStr ''Service''"
    from next_object_skip [OF pre, of "m # post"] m
    have "(\<exists>x. next_object ms = Inl x) \<or> next_object ms = Inr obj"
      by (simp add: ms py_eq_str_def)
    with tgt show ?thesis
      by (auto simp: custom_metric_and_target_def py_iter_def py_eq_str_def split: sum.splits)
  qed
  then obtain x where "custom_metric_and_target (JList ms) = Inl x"
    by blast
  with ann have fails: "fst (build_metric_value_path e hpa s) = Inl x"
    by (simp add: build_metric_value_path_def)
  obtain r s' where u: "update_hpa e ns nm up down s = (r, s')"
    by (cases "update_hpa e ns nm up down s")
  from update_hpa_cases [OF u] read fails have "r = Inl x \<and> HPAs s' = HPAs s"
    by auto
  with u show ?thesis
    by simp
qed

text \<open>
  C5 as amended, at three HPAs: with the annotation \<^verbatim>\<open>[]\<close>, with an Object metric that
  has a selector, and with an Object metric on a Pod.
\<close>

theorem unqualified_metric_not_upserted_witness:
  "(\<exists>x s'. update_hpa (api_server (\<lambda>i nm. Inr (annotated no_metric_text)))
              ''default'' ''web'' 0 0 world0 = (Inl x, s') \<and> HPAs s' = [])
   \<and> (\<exists>x s'. update_hpa (api_server (\<lambda>i nm. Inr (annotated selector_metric_text)))
              ''default'' ''web'' 0 0 world0 = (Inl x, s') \<and> HPAs s' = [])
   \<and> (\<exists>x s'. update_hpa (api_server (\<lambda>i nm. Inr (annotated pod_metric_text)))
              ''default'' ''web'' 0 0 world0 = (Inl x, s') \<and> HPAs s' = [])"
proof -
  let ?sel = "[(''selector'', JDict [(''matchLabels'', JDict [(''app'', JStr ''web'')])])]"
  let ?with_selector = "metric_entry ''Service'' ''web'' ''requests'' ?sel"
  let ?on_pod = "metric_entry ''Pod'' ''web-0'' ''requests'' []"
  have none: "\<forall>m\<in>set []. py_getitem m ''type'' \<noteq> Inr (JStr ''Object'')"
    by simp
  have inner: "py_getitem ?with_selector ''type'' = Inr (JStr ''Object'')"
    "py_getitem ?with_selector ''object''
       = Inr (JDict ([(''target'', JDict [(''kind'', JStr ''Service''), (''name'', JStr ''web'')]),
                      (''metricName'', JStr ''requests'')] @ ?sel))"
    "py_get (JDict ([(''target'', JDict [(''kind'', JStr ''Service''), (''name'', JStr ''web'')]),
                      (''metricName'', JStr ''requests'')] @ ?sel)) ''selector''
       = Inr (JDict [(''matchLabels'', JDict [(''app'', JStr ''web'')])])"
    "py_bool (JDict [(''matchLabels'', JDict [(''app'', JStr ''web'')])])"
    by (simp_all add: metric_entry_def py_getitem_def py_get_def py_bool_def)
  have selector: "\<exists>pre m post obj.
             [?with_selector] = pre @ m # post
             \<and> (\<forall>p\<in>set pre. py_getitem p ''type'' \<noteq> Inr (JStr ''Object''))
             \<and> py_getitem m ''type'' = Inr (JStr ''Object'')
             \<and> py_getitem m ''object'' = Inr obj
             \<and> ((\<exists>sel. py_get obj ''selector'' = Inr sel \<and> py_bool sel)
                \<or> (\<exists>tgt k. py_getitem obj ''target'' = Inr tgt
                      \<and> py_getitem tgt ''kind'' = Inr k \<and> k \<noteq> JStr ''Service''))"
    using inner
    by (intro exI [of _ "[]"] exI [of _ ?with_selector]
          exI [of _ "JDict ([(''target'', JDict [(''kind'', JStr ''Service''), (''name'', JStr ''web'')]),
                             (''metricName'', JStr ''requests'')] @ ?sel)"]) auto
  have outer: "py_getitem ?on_pod ''type'' = Inr (JStr ''Object'')"
    "py_getitem ?on_pod ''object''
       = Inr (JDict [(''target'', JDict [(''kind'', JStr ''Pod''), (''name'', JStr ''web-0'')]),
                     (''metricName'', JStr ''requests'')])"
    "py_getitem (JDict [(''target'', JDict [(''kind'', JStr ''Pod''), (''name'', JStr ''web-0'')]),
                        (''metricName'', JStr ''requests'')]) ''target''
       = Inr (JDict [(''kind'', JStr ''Pod''), (''name'', JStr ''web-0'')])"
    "py_getitem (JDict [(''kind'', JStr ''Pod''), (''name'', JStr ''web-0'')]) ''kind''
       = Inr (JStr ''Pod'')"
    by (simp_all add: metric_entry_def py_getitem_def)
  have pod: "\<exists>pre m post obj.
             [?on_pod] = pre @ m # post
             \<and> (\<forall>p\<in>set pre. py_getitem p ''type'' \<noteq> Inr (JStr ''Object''))
             \<and> py_getitem m ''type'' = Inr (JStr ''Object'')
             \<and> py_getitem m ''object'' = Inr obj
             \<and> ((\<exists>sel. py_get obj ''selector'' = Inr sel \<and> py_bool sel)
                \<or> (\<exists>tgt k. py_getitem obj ''target'' = Inr tgt
                      \<and> py_getitem tgt ''kind'' = Inr k \<and> k \<noteq> JStr ''Service''))"
    using outer
    by (intro exI [of _ "[]"] exI [of _ ?on_pod]
          exI [of _ "JDict [(''target'', JDict [(''kind'', JStr ''Pod''), (''name'', JStr ''web-0'')]),
                            (''metricName'', JStr ''requests'')]"]) auto
  have ann: "\<And>text. hpa_annotations (annotated text) = Some [(METRICS_ANNOTATION, text)]"
    "\<And>text. map_of [(METRICS_ANNOTATION, text)] METRICS_ANNOTATION = Some text"
    by (simp_all add: annotated_def)
  have loads: "\<And>hpas. json_loads (api_server hpas) no_metric_text = Some (JList [])"
    "\<And>hpas. json_loads (api_server hpas) selector_metric_text = Some (JList [?with_selector])"
    "\<And>hpas. json_loads (api_server hpas) pod_metric_text = Some (JList [?on_pod])"
    by (simp_all add: discovery_example_defs)
  have read: "\<And>text. read_hpa_resp (api_server (\<lambda>i nm. Inr (annotated text)))
                         (length (calls world0)) ''default'' ''web'' = Inr (annotated text)"
    by (simp add: api_server_def)
  have empty: "HPAs world0 = []"
    by (simp add: world0_def)
  from unqualified_metric_not_upserted [OF read ann loads(1) disjI1 [OF none], of 0 0]
    unqualified_metric_not_upserted [OF read ann loads(2) disjI2 [OF selector], of 0 0]
    unqualified_metric_not_upserted [OF read ann loads(3) disjI2 [OF pod], of 0 0]
    empty
  show ?thesis
    by simp
qed

subsection \<open>C6: an unavailable metric\<close>

text \<open>
  Claim C6. If, among the requests that \<^verbatim>\<open>update_target\<close> makes for an HPA, a metric
  request is answered with status 404, 503 or 403 (at the first read, at a poll of the
  wait, or at the read before the patch), then \<^verbatim>\<open>update_target\<close> returns normally, none of
  its requests is a patch, \<^verbatim>\<open>HPAs\<close> is unchanged, the last two records logged are the
  error of \<^verbatim>\<open>get_needed_replicas\<close> and the error of \<^verbatim>\<open>update_target\<close>, and the loop over
  the snapshot goes on with the next HPA.
\<close>

theorem metric_unavailable_abandons_cycle:
  assumes run: "update_target e hpa s = (r, s')"
    and new: "calls s' = new @ calls s"
    and unavailable: "\<exists>c\<in>set new. metric_unavailable c"
  shows "r = Inr () \<and> (\<forall>c\<in>set new. \<not> is_patch c) \<and> HPAs s' = HPAs s
         \<and> (\<exists>path st rest.
               logged s' = (ERROR, WillNotUpdate (target_kind hpa) (namespace hpa) (target_name hpa))
                             # (ERROR, CouldNotGetMetric path st) # rest)
         \<and> (\<forall>hpas. update_targets e (hpa # hpas) s = update_targets e hpas s')"
proof (cases "select_scale_api (target_kind hpa)")
  case (Inl x)
  with run have "s' = s"
    by (simp add: update_target_def)
  with new unavailable show ?thesis
    by simp
next
  case (Inr api)
  obtain r0 s0 where attempt: "update_target_try e hpa api s = (r0, s0)"
    by (cases "update_target_try e hpa api s")
  from run Inr attempt have fin: "update_target_except hpa (r0, s0) = (r, s')"
    by (simp add: update_target_def)
  then have same: "calls s' = calls s0" "HPAs s' = HPAs s0"
    using update_target_except_calls [of hpa "(r0, s0)"] by simp_all
  note shape = update_target_try_calls [OF attempt]
  from shape same new unavailable
  have mnf: "r0 = Inl MetricNotFound" and quiet: "\<forall>c\<in>set new. \<not> is_patch c"
    by auto
  from shape mnf obtain path st rest where
    "logged s0 = (ERROR, CouldNotGetMetric path st) # rest"
    by auto
  with fin mnf have res: "r = Inr ()"
    "logged s' = (ERROR, WillNotUpdate (target_kind hpa) (namespace hpa) (target_name hpa))
                   # (ERROR, CouldNotGetMetric path st) # rest"
    by (auto simp: update_target_except_def LOGGER_def)
  from run res(1) have "\<forall>hpas. update_targets e (hpa # hpas) s = update_targets e hpas s'"
    by simp
  with res quiet shape same show ?thesis
    by simp
qed

text \<open>
  C6 at a cluster that runs three replicas, with a scale-down window of five seconds: the
  metric is \<open>0\<close> at the first read and the metrics adapter answers 403 at the first poll.
\<close>

theorem metric_unavailable_abandons_cycle_witness:
  "fst (update_target
          (cluster (\<lambda>i. Inr (web_scale ''7'' (Some 3) 3))
                   (\<lambda>i. if i < 2 then Inr [Value_int 0] else Inl (Status 403)))
          (web_hpa 0 5) world0) = Inr ()
   \<and> calls (snd (update_target
          (cluster (\<lambda>i. Inr (web_scale ''7'' (Some 3) 3))
                   (\<lambda>i. if i < 2 then Inr [Value_int 0] else Inl (Status 403)))
          (web_hpa 0 5) world0))
       = [GetMetric web_path (Inl (Status 403)),
          ReadScale DeploymentScale ''default'' ''web'' (Inr (web_scale ''7'' (Some 3) 3)),
          GetMetric web_path (Inr [Value_int 0]),
          ReadScale DeploymentScale ''default'' ''web'' (Inr (web_scale ''7'' (Some 3) 3))]
   \<and> take 2 (logged (snd (update_target
          (cluster (\<lambda>i. Inr (web_scale ''7'' (Some 3) 3))
                   (\<lambda>i. if i < 2 then Inr [Value_int 0] else Inl (Status 403)))
          (web_hpa 0 5) world0)))
       = [(ERROR, WillNotUpdate ''Deployment'' ''default'' ''web''),
          (ERROR, CouldNotGetMetric web_path 403)]"
proof -
  let ?e = "cluster (\<lambda>i. Inr (web_scale ''7'' (Some 3) 3))
                    (\<lambda>i. if i < 2 then Inr [Value_int 0] else Inl (Status 403))"
  let ?h = "web_hpa 0 5"
  let ?new = "[GetMetric web_path (Inl (Status 403)),
               ReadScale DeploymentScale ''default'' ''web'' (Inr (web_scale ''7'' (Some 3) 3)),
               GetMetric web_path (Inr [Value_int 0]),
               ReadScale DeploymentScale ''default'' ''web'' (Inr (web_scale ''7'' (Some 3) 3))]"
  have run: "update_target ?e ?h world0
               = (fst (update_target ?e ?h world0), snd (update_target ?e ?h world0))"
    by simp
  have new: "calls (snd (update_target ?e ?h world0)) = ?new @ calls world0"
    by (simp add: example_defs model_defs stabilization_wait.simps)
  have unavailable: "\<exists>c\<in>set ?new. metric_unavailable c"
    by simp
  have names: "target_kind ?h = ''Deployment''" "namespace ?h = ''default''"
    "target_name ?h = ''web''"
    by (simp_all add: example_defs)
  have path: "hd (tl (logged (snd (update_target ?e ?h world0)))) = (ERROR, CouldNotGetMetric web_path 403)"
    by (simp add: example_defs model_defs stabilization_wait.simps)
  from metric_unavailable_abandons_cycle [OF run new unavailable] new names path
  show ?thesis
    by (auto simp: world0_def)
qed

subsection \<open>C7: a window of zero\<close>

text \<open>
  Claim C7. When the first read of an evaluation finds that scaling up or down is needed
  and the window selected for it is zero, \<^verbatim>\<open>scaling_is_needed\<close> returns \<open>True\<close> in the
  state that this first read left: the two requests of the read are the only ones made,
  nothing is logged, and no turn of the polling loop has run.
\<close>

theorem zero_window_confirms_immediately:
  assumes "get_replicas e hpa api s = (Inr (cur, needed), s1)"
    and "scaling_up_is_needed cur needed \<and> scale_up_stabilization_window hpa = 0
         \<or> \<not> scaling_up_is_needed cur needed \<and> scaling_down_is_needed cur needed
             \<and> scale_down_stabilization_window hpa = 0"
  shows "scaling_is_needed e hpa api s = (Inr True, s1)
         \<and> length (calls s1) = length (calls s) + 2 \<and> logged s1 = logged s"
  using assms get_replicas_Inr [OF assms(1)]
  by (auto simp: scaling_is_needed_def stabilized_def)

text \<open>
  C7 at a cluster that runs one replica and reports the metric \<open>0\<close>, with a
  scale-down window of zero: the answer is \<open>True\<close> after two requests.
\<close>

theorem zero_window_confirms_immediately_witness:
  "fst (scaling_is_needed
          (cluster (\<lambda>i. Inr (web_scale ''7'' (Some 1) 1)) (\<lambda>i. Inr [Value_int 0]))
          (web_hpa 15 0) DeploymentScale world0) = Inr True
   \<and> length (calls (snd (scaling_is_needed
          (cluster (\<lambda>i. Inr (web_scale ''7'' (Some 1) 1)) (\<lambda>i. Inr [Value_int 0]))
          (web_hpa 15 0) DeploymentScale world0))) = 2"
proof -
  let ?e = "cluster (\<lambda>i. Inr (web_scale ''7'' (Some 1) 1)) (\<lambda>i. Inr [Value_int 0])"
  have g: "get_replicas ?e (web_hpa 15 0) DeploymentScale world0
             = (Inr (1, 0), snd (get_replicas ?e (web_hpa 15 0) DeploymentScale world0))"
    by (simp add: example_defs model_defs)
  have w: "scaling_up_is_needed 1 0 \<and> scale_up_stabilization_window (web_hpa 15 0) = 0
           \<or> \<not> scaling_up_is_needed 1 0 \<and> scaling_down_is_needed 1 0
               \<and> scale_down_stabilization_window (web_hpa 15 0) = 0"
    by (simp add: example_defs model_defs)
  have "calls world0 = []"
    by (simp add: world0_def)
  with zero_window_confirms_immediately [OF g w] show ?thesis
    by simp
qed

subsection \<open>C8: a forgotten HPA stays forgotten\<close>

text \<open>
  Claim C8, which says that after a delete event for an HPA the registry does not
  contain it until a new add or modify event, is false: \<^verbatim>\<open>update_hpa\<close> is not given the
  type of the event, it reads the HPA again and goes by the answer. Here the HPA
  \<open>web\<close> is found at every read (it was created again under the same name): after the
  delete event, the last one processed, the snapshot contains \<open>web\<close>.
\<close>

theorem delete_event_upserts:
  "map fst (HPAs (snd (watch_hpa (api_server (\<lambda>i nm. Inr (annotated one_metric_text)))
          watch_args [([event_of ADDED ''web'', event_of DELETED ''web''], Closed)] world0)))
     = [''default/web'']
   \<and> snapshot (snd (watch_hpa (api_server (\<lambda>i nm. Inr (annotated one_metric_text)))
          watch_args [([event_of ADDED ''web'', event_of DELETED ''web''], Closed)] world0))
     = [web_hpa 0 0]
   \<and> hd (calls (snd (watch_hpa (api_server (\<lambda>i nm. Inr (annotated one_metric_text)))
          watch_args [([event_of ADDED ''web'', event_of DELETED ''web''], Closed)] world0)))
     = ReadHpa ''default'' ''web'' (Inr (annotated one_metric_text))"
  by (simp add: discovery_defs discovery_example_defs example_defs model_defs)

text \<open>
  Claim C8 as amended. Let every entry of \<^verbatim>\<open>HPAs\<close> be filed under the namespaced name of
  its HPA, as \<^verbatim>\<open>update_hpa\<close> files it. After an event, of any type, for which the read of
  the HPA returned not-found, the snapshot contains no HPA with this namespaced name.
  However many events of however many streams are processed afterwards, if the snapshot
  then contains an HPA with this namespaced name, one of the reads since was a read of an
  HPA with this namespaced name that found it, with an annotation that resolves
  (\<open>readmits\<close>); the type of the event that led to this read does not matter.
\<close>

theorem forgotten_until_resolved_again:
  assumes keyed: "registry_keyed (HPAs s)"
    and not_found: "read_hpa_resp e (length (calls s)) ns nm = Inl (Status 404)"
    and forget: "update_hpa e ns nm up down s = (r0, s0)"
    and later: "watch_streams e a sts s0 = (r, s')"
    and new: "calls s' = new @ calls s0"
  shows "r0 = Inr ()
         \<and> (\<forall>h\<in>set (snapshot s0). namespace h @ ''/'' @ name h \<noteq> ns @ ''/'' @ nm)
         \<and> ((\<exists>h\<in>set (snapshot s'). namespace h @ ''/'' @ name h = ns @ ''/'' @ nm)
              \<longrightarrow> (\<exists>c\<in>set new. readmits e (ns @ ''/'' @ nm) c))"
proof -
  let ?k = "ns @ ''/'' @ nm"
  from update_hpa_cases [OF forget] not_found
  have r0: "r0 = Inr ()" and h0: "HPAs s0 = AList.delete ?k (HPAs s)"
    by auto
  from h0 have absent: "?k \<notin> fst ` set (HPAs s0)"
    by (simp add: delete_notin_dom)
  from h0 keyed have keyed0: "registry_keyed (HPAs s0)"
    by (simp add: registry_keyed_delete)
  have gone: "\<forall>h\<in>set (snapshot s0). namespace h @ ''/'' @ name h \<noteq> ?k"
    using snapshot_keys [OF keyed0] absent by metis
  from watch_streams_readmits [OF later keyed0, of ?k] new absent
  have keyed': "registry_keyed (HPAs s')"
    and again: "?k \<in> fst ` set (HPAs s') \<longrightarrow> (\<exists>c\<in>set new. readmits e ?k c)"
    by auto
  have "(\<exists>h\<in>set (snapshot s'). namespace h @ ''/'' @ name h = ?k)
          \<longrightarrow> (\<exists>c\<in>set new. readmits e ?k c)"
    using snapshot_keys [OF keyed'] again by metis
  with r0 gone show ?thesis
    by simp
qed

text \<open>
  C8 as amended, at a registry that holds \<open>web\<close>. The first read does not find it and it
  is forgotten; the HPA is found at the reads that follow. After an event for \<open>api\<close> and
  one for \<open>web\<close> the snapshot holds both, and the read that found \<open>web\<close> is among the
  requests.
\<close>

theorem forgotten_until_resolved_again_witness:
  "snapshot (snd (update_hpa
        (api_server (\<lambda>i nm. if i = 0 then Inl (Status 404) else Inr (annotated one_metric_text)))
        ''default'' ''web'' 0 0 (world0\<lparr>HPAs := [(''default/web'', web_hpa 0 0)]\<rparr>))) = []
   \<and> map name (snapshot (snd (watch_streams
        (api_server (\<lambda>i nm. if i = 0 then Inl (Status 404) else Inr (annotated one_metric_text)))
        watch_args [([event_of MODIFIED ''api'', event_of ADDED ''web''], Closed)]
        (snd (update_hpa
           (api_server (\<lambda>i nm. if i = 0 then Inl (Status 404) else Inr (annotated one_metric_text)))
           ''default'' ''web'' 0 0 (world0\<lparr>HPAs := [(''default/web'', web_hpa 0 0)]\<rparr>))))))
       = [''api'', ''web'']
   \<and> (\<exists>c\<in>set [ReadHpa ''default'' ''web'' (Inr (annotated one_metric_text)),
                 ReadHpa ''default'' ''api'' (Inr (annotated one_metric_text))].
         readmits
           (api_server (\<lambda>i nm. if i = 0 then Inl (Status 404) else Inr (annotated one_metric_text)))
           (''default'' @ ''/'' @ ''web'') c)"
proof -
  let ?e = "api_server (\<lambda>i nm. if i = 0 then Inl (Status 404) else Inr (annotated one_metric_text))"
  let ?s = "world0\<lparr>HPAs := [(''default/web'', web_hpa 0 0)]\<rparr>"
  let ?u = "update_hpa ?e ''default'' ''web'' 0 0 ?s"
  let ?w = "watch_streams ?e watch_args [([event_of MODIFIED ''api'', event_of ADDED ''web''], Closed)] (snd ?u)"
  let ?new = "[ReadHpa ''default'' ''web'' (Inr (annotated one_metric_text)),
               ReadHpa ''default'' ''api'' (Inr (annotated one_metric_text))]"
  have keyed: "registry_keyed (HPAs ?s)"
    by (simp add: registry_keyed_def example_defs)
  have not_found: "read_hpa_resp ?e (length (calls ?s)) ''default'' ''web'' = Inl (Status 404)"
    by (simp add: api_server_def world0_def)
  have forget: "?u = (fst ?u, snd ?u)"
    by simp
  have later: "?w = (fst ?w, snd ?w)"
    by simp
  have gone: "snapshot (snd ?u) = []"
    by (simp add: discovery_defs discovery_example_defs example_defs model_defs)
  have there: "map name (snapshot (snd ?w)) = [''api'', ''web'']"
    by (simp add: discovery_defs discovery_example_defs example_defs model_defs)
  have new: "calls (snd ?w) = ?new @ calls (snd ?u)"
    by (simp add: discovery_defs discovery_example_defs example_defs model_defs)
  have "\<exists>h\<in>set (snapshot (snd ?w)). namespace h @ ''/'' @ name h = ''default'' @ ''/'' @ ''web''"
    by (simp add: discovery_defs discovery_example_defs example_defs model_defs)
  with forgotten_until_resolved_again [OF keyed not_found forget later new]
  have "\<exists>c\<in>set ?new. readmits ?e (''default'' @ ''/'' @ ''web'') c"
    by blast
  with gone there show ?thesis
    by blast
qed

subsection \<open>C9: what a patch writes back\<close>

text \<open>
  Claim C9, which says that the patched body is the object of the read immediately
  before the patch, is false: \<^verbatim>\<open>update_target\<close> reads the scale, then \<^verbatim>\<open>get_replicas\<close>
  reads it once more, and the body patched is the object of the first of these two
  reads. At a cluster whose resource version moves from 41 to 42 between the two reads
  the patch carries 41, while the read immediately before it returned 42.
\<close>

theorem patch_body_not_from_last_read:
  "calls (snd (update_target
          (cluster (\<lambda>i. Inr (web_scale (if i = 2 then ''41'' else ''42'') None 0))
                   (\<lambda>i. Inr [Value_int 5]))
          (web_hpa 0 0) world0))
     = [PatchScale DeploymentScale ''default'' ''web'' (web_scale ''41'' (Some 1) 0) None,
        GetMetric web_path (Inr [Value_int 5]),
        ReadScale DeploymentScale ''default'' ''web'' (Inr (web_scale ''42'' None 0)),
        ReadScale DeploymentScale ''default'' ''web'' (Inr (web_scale ''41'' None 0)),
        GetMetric web_path (Inr [Value_int 5]),
        ReadScale DeploymentScale ''default'' ''web'' (Inr (web_scale ''42'' None 0))]
   \<and> metadata (web_scale ''41'' (Some 1) 0) \<noteq> metadata (web_scale ''42'' None 0)"
  by (simp add: example_defs model_defs)

text \<open>
  Claim C9 as amended. Every patch that \<^verbatim>\<open>update_target\<close> issues is its last request,
  and the three requests before it are the metric request and the scale read of
  \<^verbatim>\<open>get_replicas\<close> and, before these, the scale read of \<^verbatim>\<open>update_target\<close> itself, for
  the same workload. The body of the patch is the object that this read of
  \<^verbatim>\<open>update_target\<close> returned with \<^verbatim>\<open>spec.replicas\<close> replaced: every other field is as it
  was read there.
\<close>

theorem patch_writes_back_own_read:
  assumes run: "update_target e hpa s = (r, s')"
    and new: "calls s' = new @ calls s"
    and patch: "PatchScale api ns nm body resp \<in> set new"
  shows "\<exists>scA scB its older n.
           new = PatchScale api ns nm body resp
                 # GetMetric (metric_value_path hpa) (Inr its)
                 # ReadScale api ns nm (Inr scB)
                 # ReadScale api ns nm (Inr scA)
                 # older
           \<and> (\<forall>c\<in>set older. \<not> is_patch c)
           \<and> body = scA\<lparr>spec := (spec scA)\<lparr>spec_replicas := Some n\<rparr>\<rparr>
           \<and> ns = namespace hpa \<and> nm = name hpa
           \<and> select_scale_api (target_kind hpa) = Inr api"
proof (cases "select_scale_api (target_kind hpa)")
  case (Inl x)
  with run have "s' = s"
    by (simp add: update_target_def)
  with new patch show ?thesis
    by simp
next
  case (Inr api0)
  obtain r0 s0 where attempt: "update_target_try e hpa api0 s = (r0, s0)"
    by (cases "update_target_try e hpa api0 s")
  from run Inr attempt have "update_target_except hpa (r0, s0) = (r, s')"
    by (simp add: update_target_def)
  then have same: "calls s' = calls s0"
    using update_target_except_calls [of hpa "(r0, s0)"] by simp
  from update_target_try_calls [OF attempt] same new patch Inr show ?thesis
    by (elim conjE disjE exE) (force, auto)
qed

text \<open>
  C9 as amended, at the cluster whose resource version moves from 41 to 42: the body
  of the patch is the object with version 41, with \<^verbatim>\<open>spec.replicas\<close> set to 1.
\<close>

theorem patch_writes_back_own_read_witness:
  "\<exists>scA scB its older n.
     calls (snd (update_target
          (cluster (\<lambda>i. Inr (web_scale (if i = 2 then ''41'' else ''42'') None 0))
                   (\<lambda>i. Inr [Value_int 5]))
          (web_hpa 0 0) world0))
       = PatchScale DeploymentScale ''default'' ''web'' (web_scale ''41'' (Some 1) 0) None
         # GetMetric web_path (Inr its)
         # ReadScale DeploymentScale ''default'' ''web'' (Inr scB)
         # ReadScale DeploymentScale ''default'' ''web'' (Inr scA)
         # older
     \<and> web_scale ''41'' (Some 1) 0 = scA\<lparr>spec := (spec scA)\<lparr>spec_replicas := Some n\<rparr>\<rparr>
     \<and> resource_version (metadata scA) = ''41''"
proof -
  let ?e = "cluster (\<lambda>i. Inr (web_scale (if i = 2 then ''41'' else ''42'') None 0))
                    (\<lambda>i. Inr [Value_int 5])"
  let ?s' = "snd (update_target ?e (web_hpa 0 0) world0)"
  let ?body = "web_scale ''41'' (Some 1) 0"
  have run: "update_target ?e (web_hpa 0 0) world0 = (fst (update_target ?e (web_hpa 0 0) world0), ?s')"
    by simp
  have new: "calls ?s' = calls ?s' @ calls world0"
    by (simp add: world0_def)
  have "hd (calls ?s') = PatchScale DeploymentScale ''default'' ''web'' ?body None"
    "calls ?s' \<noteq> []"
    by (simp_all add: example_defs model_defs)
  then have patch: "PatchScale DeploymentScale ''default'' ''web'' ?body None \<in> set (calls ?s')"
    by (metis hd_in_set)
  from patch_writes_back_own_read [OF run new patch]
  obtain scA scB its older n where
    shape: "calls ?s' = PatchScale DeploymentScale ''default'' ''web'' ?body None
              # GetMetric (metric_value_path (web_hpa 0 0)) (Inr its)
              # ReadScale DeploymentScale ''default'' ''web'' (Inr scB)
              # ReadScale DeploymentScale ''default'' ''web'' (Inr scA)
              # older"
    and body: "?body = scA\<lparr>spec := (spec scA)\<lparr>spec_replicas := Some n\<rparr>\<rparr>"
    by blast
  from body have "metadata scA = metadata ?body"
    by (cases scA) (simp add: web_scale_def)
  then have "resource_version (metadata scA) = ''41''"
    by (simp add: web_scale_def)
  with shape body show ?thesis
    by (auto simp: web_hpa_def)
qed

subsection \<open>C10: a patch never asks for more than one replica\<close>

text \<open>
  Claim C10. Whatever the cluster answers and from whatever state, a patch issued by
  \<^verbatim>\<open>update_target\<close> for any HPA, or during any number of turns of the loop of
  \<^verbatim>\<open>watch_metrics\<close>, carries a body whose \<^verbatim>\<open>spec.replicas\<close> is an integer not above 1.
\<close>

theorem patched_replicas_at_most_one:
  assumes run: "(\<exists>hpa r. update_target e hpa s = (r, s')) \<or> (\<exists>turns p. watch_metrics e turns s = (p, s'))"
    and new: "calls s' = new @ calls s"
    and patch: "PatchScale api ns nm body resp \<in> set new"
  shows "\<exists>n. spec_replicas (spec body) = Some n \<and> n \<le> 1"
proof -
  from run obtain new0 where "calls s' = new0 @ calls s" "\<forall>c\<in>set new0. patch_at_most_one c"
    using update_target_new_calls watch_metrics_new_calls by blast
  with new patch have "patch_at_most_one (PatchScale api ns nm body resp)"
    by auto
  then show ?thesis
    by (simp split: option.splits)
qed

text \<open>
  C10 at a cluster that runs no replica and reports the metric \<open>5\<close>: one turn of the loop
  over a registry that holds the HPA patches \<^verbatim>\<open>spec.replicas\<close> to 1.
\<close>

theorem patched_replicas_at_most_one_witness:
  "hd (calls (snd (watch_metrics
          (cluster (\<lambda>i. Inr (web_scale ''7'' None 0)) (\<lambda>i. Inr [Value_int 5])) 1
          (world0\<lparr>HPAs := [(''default/web'', web_hpa 0 0)]\<rparr>))))
     = PatchScale DeploymentScale ''default'' ''web'' (web_scale ''7'' (Some 1) 0) None
   \<and> (\<exists>n. spec_replicas (spec (web_scale ''7'' (Some 1) 0)) = Some n \<and> n \<le> 1)"
proof -
  let ?e = "cluster (\<lambda>i. Inr (web_scale ''7'' None 0)) (\<lambda>i. Inr [Value_int 5])"
  let ?s = "world0\<lparr>HPAs := [(''default/web'', web_hpa 0 0)]\<rparr>"
  let ?s' = "snd (watch_metrics ?e 1 ?s)"
  have run: "(\<exists>hpa r. update_target ?e hpa ?s = (r, ?s'))
             \<or> (\<exists>turns p. watch_metrics ?e turns ?s = (p, ?s'))"
    by (metis prod.collapse)
  have new: "calls ?s' = calls ?s' @ calls ?s"
    by (simp add: world0_def)
  have c: "calls ?s' =
             [PatchScale DeploymentScale ''default'' ''web'' (web_scale ''7'' (Some 1) 0) None,
              GetMetric web_path (Inr [Value_int 5]),
              ReadScale DeploymentScale ''default'' ''web'' (Inr (web_scale ''7'' None 0)),
              ReadScale DeploymentScale ''default'' ''web'' (Inr (web_scale ''7'' None 0)),
              GetMetric web_path (Inr [Value_int 5]),
              ReadScale DeploymentScale ''default'' ''web'' (Inr (web_scale ''7'' None 0))]"
    by (simp add: numeral_eq_Suc example_defs model_defs)
  then have patch: "PatchScale DeploymentScale ''default'' ''web'' (web_scale ''7'' (Some 1) 0) None
                      \<in> set (calls ?s')"
    by simp
  from patched_replicas_at_most_one [OF run new patch] c show ?thesis
    by simp
qed

end
